theory Spec2Isabelle
  imports Main "HOL-Library.Signed_Division" "HOL-Library.Sublist"
begin

section \<open>Data model\<close>

text \<open>
  An attachment as the record store returns it and as the upload pipeline builds it:
  \<^verbatim>\<open>{ id, url, filename, type }\<close>. A freshly uploaded entry is
  \<^verbatim>\<open>{ url, filename }\<close>: it has no \<open>id\<close> and no \<open>type\<close> yet.
\<close>

record attachment =
  att_id :: "string option"
  url :: string
  filename :: string
  att_type :: "string option"

datatype field_value =
    Attachments "attachment list"
  | Text string
  | Links "string list"

text \<open>A record of the store: its store key (\<open>id\<close>) and its \<open>fields\<close> object.\<close>

record airtable_record =
  rec_id :: string
  rec_fields :: "(string \<times> field_value) list"

text \<open>Exceptions of the JavaScript run time that the modelled code can meet.\<close>

datatype exn =
    TypeError
  | ReferenceError
  | SyntaxError
  | NetworkError
  | MaxRetriesReached
  | ErrorThrown string

text \<open>
  What \<^verbatim>\<open>response.json()\<close> yields. \<open>NotJson\<close> makes the call reject; the other
  constructors are the shapes of JSON object the code reads a property of.
\<close>

datatype body =
    NotJson
  | OtherJson
  | RecordsBody "airtable_record list"
  | ErrorBody "string option"
  | DropboxErrorBody "string option" "string option"
  | UploadBody string
  | LinkBody string
  | LinksBody "string list"
  | TokenBody "string option"

record response =
  status :: nat
  body :: body

definition ok :: "response \<Rightarrow> bool" where
  "ok r = (200 \<le> status r \<and> status r \<le> 299)"

definition json :: "response \<Rightarrow> exn + body" where
  "json r = (case body r of NotJson \<Rightarrow> Inl SyntaxError | b \<Rightarrow> Inr b)"

text \<open>
  The HTTP requests the code issues, reduced to what the remote side reads of them. A list
  request names the table, the business key of its \<^verbatim>\<open>filterByFormula\<close> when it has
  one, and its \<^verbatim>\<open>maxRecords\<close> when it has one; a PATCH names the table, the record key
  and the fields.
\<close>

datatype request =
    ListRecords string "string option" "nat option"
  | PatchRecord string string "(string \<times> field_value) list"
  | DropboxUpload string string
  | DropboxCreateLink "string option" "string option"
  | DropboxListLinks "string option" "string option"
  | DropboxRefresh "string option" "string option" "string option"

section \<open>The environment: remote services and page state\<close>

text \<open>
  What the remote side does with the \<open>n\<close>-th request of a run: the call to
  \<^verbatim>\<open>fetch\<close> rejects, or a given response comes back (a rate limit, an error, a
  reply of the blob store), or the record store serves the request from its tables.
\<close>

datatype outcome =
    Rejects
  | Replies response
  | Serves

text \<open>
  The page and what it talks to: the tables of the record store by name, the script of the
  remote side, the log of requests sent and the total of the delays slept, and the page
  state the modelled functions read or write (\<^verbatim>\<open>navigator.onLine\<close>, the trimmed value
  of \<^verbatim>\<open>#vendor-dropdown\<close>, the toasts shown, the credential globals,
  \<^verbatim>\<open>window.env.AIRTABLE_TABLE_NAME\<close>, and whether the image containers and upload inputs
  that \<^verbatim>\<open>loadImagesForLot\<close> looks up exist). \<open>has_env\<close> says whether \<^verbatim>\<open>window.env\<close> is
  defined when \<^verbatim>\<open>fetchCurrentImagesFromAirtable\<close> builds its URL, which it does before
  its \<^verbatim>\<open>try\<close> block. The other functions are modelled for a page on which it is
  defined: in the deletion coordinator and in the delete handler of the viewer the read
  comes first, so that with \<^verbatim>\<open>window.env\<close> undefined none of them is reached.
\<close>

record world =
  tables :: "string \<Rightarrow> airtable_record list"
  remote :: "nat \<Rightarrow> outcome"
  sent :: "request list"
  slept :: nat
  online :: bool
  vendor_dropdown :: "string option"
  toasts :: "(string \<times> string) list"
  dropboxAccessToken :: "string option"
  dropboxAppKey :: "string option"
  dropboxAppSecret :: "string option"
  dropboxRefreshToken :: "string option"
  AIRTABLE_TABLE_NAME :: string
  has_image_containers :: bool
  has_env :: bool

definition credentials_table_id :: string where
  "credentials_table_id = ''tbl6EeKPsNuEvt5yJ''"

definition text_field :: "airtable_record \<Rightarrow> string \<Rightarrow> string option" where
  "text_field r k = (case map_of (rec_fields r) k of Some (Text s) \<Rightarrow> Some s | _ \<Rightarrow> None)"

definition business_key :: "airtable_record \<Rightarrow> string option" where
  "business_key r = text_field r ''Warranty Record ID''"

fun set_field :: "string \<Rightarrow> field_value \<Rightarrow> (string \<times> field_value) list \<Rightarrow> (string \<times> field_value) list" where
  "set_field k v [] = [(k, v)]"
| "set_field k v ((k', v') # kvs) = (if k' = k then (k, v) # kvs else (k', v') # set_field k v kvs)"

fun set_fields :: "(string \<times> field_value) list \<Rightarrow> (string \<times> field_value) list \<Rightarrow> (string \<times> field_value) list" where
  "set_fields [] kvs = kvs"
| "set_fields ((k, v) # ps) kvs = set_fields ps (set_field k v kvs)"

fun patch_table :: "string \<Rightarrow> (string \<times> field_value) list \<Rightarrow> airtable_record list \<Rightarrow> airtable_record list" where
  "patch_table rid ps [] = []"
| "patch_table rid ps (r # rs) =
     (if rec_id r = rid then r\<lparr>rec_fields := set_fields ps (rec_fields r)\<rparr> # rs
      else r # patch_table rid ps rs)"

definition limit :: "nat option \<Rightarrow> 'a list \<Rightarrow> 'a list" where
  "limit m xs = (case m of None \<Rightarrow> xs | Some n \<Rightarrow> take n xs)"

text \<open>
  The record store. A list request answers with the records of the table, those whose
  business key (the field \<open>Warranty Record ID\<close>) equals the key of the formula when there
  is one, in table order and cut at \<^verbatim>\<open>maxRecords\<close>; a PATCH replaces the given fields
  of the record with that store key, and answers 404 when the table has no such record.
  Requests to the blob store are not its own.
\<close>

fun serve :: "request \<Rightarrow> world \<Rightarrow> response \<times> world" where
  "serve (ListRecords tbl formula m) w =
     (\<lparr>status = 200,
       body = RecordsBody (limit m
         (case formula of
            None \<Rightarrow> tables w tbl
          | Some key \<Rightarrow> filter (\<lambda>r. business_key r = Some key) (tables w tbl)))\<rparr>, w)"
| "serve (PatchRecord tbl rid ps) w =
     (if rid \<in> rec_id ` set (tables w tbl)
      then (\<lparr>status = 200, body = OtherJson\<rparr>,
            w\<lparr>tables := (tables w)(tbl := patch_table rid ps (tables w tbl))\<rparr>)
      else (\<lparr>status = 404, body = ErrorBody (Some ''NOT_FOUND'')\<rparr>, w))"
| "serve _ w = (\<lparr>status = 404, body = NotJson\<rparr>, w)"

text \<open>\<^verbatim>\<open>fetch(url, options)\<close>: one request, logged in \<open>sent\<close>.\<close>

definition fetch :: "request \<Rightarrow> world \<Rightarrow> (exn + response) \<times> world" where
  "fetch req w =
     (let w' = w\<lparr>sent := sent w @ [req]\<rparr> in
      case remote w (length (sent w)) of
        Rejects \<Rightarrow> (Inl NetworkError, w')
      | Replies r \<Rightarrow> (Inr r, w')
      | Serves \<Rightarrow> (case serve req w' of (r, w'') \<Rightarrow> (Inr r, w'')))"

text \<open>\<^verbatim>\<open>await new Promise(res => setTimeout(res, delay))\<close>\<close>

definition sleep :: "nat \<Rightarrow> world \<Rightarrow> world" where
  "sleep delay w = w\<lparr>slept := slept w + delay\<rparr>"

section \<open>Resilient transport\<close>

text \<open>
  \<^verbatim>\<open>
  async function fetchWithRetry(url, options = {}, maxRetries = 5) {
    let attempt = 0;
    let delay = 500;
    while (attempt < maxRetries) {
      const response = await fetch(url, options);
      if (response.status !== 429) return response;
      await new Promise(res => setTimeout(res, delay));
      delay *= 2;
      attempt++;
    }
    throw new Error(`Max retries reached for ${url}`);
  }
  \<close>
  The delay is a natural number of milliseconds.
\<close>

function fetchWithRetry_loop ::
  "request \<Rightarrow> nat \<Rightarrow> nat \<Rightarrow> nat \<Rightarrow> world \<Rightarrow> (exn + response) \<times> world" where
  "fetchWithRetry_loop req maxRetries attempt delay w =
     (if attempt < maxRetries then
        (case fetch req w of
           (Inl e, w1) \<Rightarrow> (Inl e, w1)
         | (Inr response, w1) \<Rightarrow>
             if status response \<noteq> 429 then (Inr response, w1)
             else fetchWithRetry_loop req maxRetries (attempt + 1) (delay * 2) (sleep delay w1))
      else (Inl MaxRetriesReached, w))"
  by pat_completeness auto
termination
  by (relation "measure (\<lambda>(req, maxRetries, attempt, delay, w). maxRetries - attempt)") auto

definition fetchWithRetry :: "request \<Rightarrow> nat \<Rightarrow> world \<Rightarrow> (exn + response) \<times> world" where
  "fetchWithRetry req maxRetries w = fetchWithRetry_loop req maxRetries 0 500 w"

text \<open>
  A mock endpoint for the transport: the \<open>i\<close>-th request of the run is answered with
  the rate-limit status 429.
\<close>

definition rate_limited :: "world \<Rightarrow> nat \<Rightarrow> bool" where
  "rate_limited w i = (case remote w i of Replies r \<Rightarrow> status r = 429 | _ \<Rightarrow> False)"

text \<open>
  The page after \<open>n\<close> rate-limited attempts at \<open>req\<close>: \<open>n\<close> requests sent, and the
  doubling series \<open>500 + 1000 + \<dots> + 500 * 2 ^ (n - 1)\<close> slept.
\<close>

definition backed_off :: "request \<Rightarrow> nat \<Rightarrow> world \<Rightarrow> world" where
  "backed_off req n w =
     w\<lparr>sent := sent w @ replicate n req, slept := slept w + (\<Sum>i<n. 500 * 2 ^ i)\<rparr>"

text \<open>A page at rest in front of an empty store that serves every request.\<close>

definition quiet_world :: world where
  "quiet_world =
     \<lparr>tables = (\<lambda>tbl. []), remote = (\<lambda>n. Serves), sent = [],
      slept = 0, online = True, vendor_dropdown = None, toasts = [],
      dropboxAccessToken = None, dropboxAppKey = None, dropboxAppSecret = None,
      dropboxRefreshToken = None, AIRTABLE_TABLE_NAME = ''Warranty'',
      has_image_containers = True, has_env = True\<rparr>"

definition too_many_requests :: response where
  "too_many_requests = \<lparr>status = 429, body = NotJson\<rparr>"

definition limited_twice :: world where
  "limited_twice = quiet_world\<lparr>remote := (\<lambda>n. if n < 2 then Replies too_many_requests else Serves)\<rparr>"

section \<open>Attachment viewer (carousel)\<close>

text \<open>
  The globals \<^verbatim>\<open>currentCarouselFiles\<close>, \<^verbatim>\<open>currentCarouselIndex\<close>,
  \<^verbatim>\<open>currentCarouselField\<close>, \<^verbatim>\<open>currentWarrantyId\<close>, and the part of the page the
  viewer writes: whether \<^verbatim>\<open>#carousel-body\<close> and \<^verbatim>\<open>#attachment-carousel\<close> exist, the
  children of the body, and the display state of the overlay, of the two navigation
  buttons and of the page behind.

  The script never declares the four globals: they come into being at their first
  assignment, in \<^verbatim>\<open>openCarousel\<close> or \<^verbatim>\<open>closeCarousel\<close>, which assign all four together.
  Until then reading any of them throws a \<^verbatim>\<open>ReferenceError\<close>. \<open>Undeclared\<close> is that
  state, of the working set and with it of the other three; \<open>NotArray\<close> is the working
  set \<^verbatim>\<open>null\<close> or \<^verbatim>\<open>undefined\<close>, as \<^verbatim>\<open>openCarousel\<close> stores it when called with
  no list. An index is an integer or \<^verbatim>\<open>NaN\<close>, which
  also stands for \<^verbatim>\<open>undefined\<close>: both compare false with every number and index no
  element.
\<close>

datatype element =
    Img string string
  | Iframe string
  | Anchor string string

datatype files_value =
    Undeclared
  | NotArray
  | Array "attachment list"

datatype index_value =
    Num int
  | NaN

record carousel =
  currentCarouselFiles :: files_value
  currentCarouselIndex :: index_value
  currentCarouselField :: "string option"
  currentWarrantyId :: "string option"
  has_body :: bool
  has_overlay :: bool
  carousel_body :: "element list"
  overlay_shown :: bool
  nav_shown :: bool
  page_scroll :: bool
  globalSwipeEnabled :: bool

text \<open>
  \<^verbatim>\<open>index < n\<close>, \<^verbatim>\<open>index >= n\<close>, \<^verbatim>\<open>index + k\<close>, \<^verbatim>\<open>index % n\<close> (which takes the sign
  of the dividend: it is \<open>smod\<close>), \<^verbatim>\<open>Math.min(index, n)\<close> and \<^verbatim>\<open>files[index]\<close>.
\<close>

definition js_lt :: "index_value \<Rightarrow> int \<Rightarrow> bool" where
  "js_lt index n = (case index of Num i \<Rightarrow> i < n | NaN \<Rightarrow> False)"

definition js_ge :: "index_value \<Rightarrow> int \<Rightarrow> bool" where
  "js_ge index n = (case index of Num i \<Rightarrow> n \<le> i | NaN \<Rightarrow> False)"

definition js_plus :: "index_value \<Rightarrow> int \<Rightarrow> index_value" where
  "js_plus index k = (case index of Num i \<Rightarrow> Num (i + k) | NaN \<Rightarrow> NaN)"

definition js_rem :: "index_value \<Rightarrow> int \<Rightarrow> index_value" where
  "js_rem index n = (case index of Num i \<Rightarrow> Num (i smod n) | NaN \<Rightarrow> NaN)"

definition js_min :: "index_value \<Rightarrow> int \<Rightarrow> index_value" where
  "js_min index n = (case index of Num i \<Rightarrow> Num (min i n) | NaN \<Rightarrow> NaN)"

definition item_at :: "attachment list \<Rightarrow> index_value \<Rightarrow> attachment option" where
  "item_at files index =
     (case index of
        Num i \<Rightarrow> if 0 \<le> i \<and> i < int (length files) then Some (files ! nat i) else None
      | NaN \<Rightarrow> None)"

text \<open>
  The type-directed block of \<^verbatim>\<open>displayCarouselItem\<close>: what is appended to the emptied
  body for \<^verbatim>\<open>file\<close>, which is \<open>None\<close> when \<^verbatim>\<open>currentCarouselFiles[index]\<close> is
  \<^verbatim>\<open>undefined\<close>. \<open>ts\<close> is the text of \<^verbatim>\<open>Date.now()\<close>.
  \<^verbatim>\<open>
  if (file?.url) {
    if (file.type?.startsWith("image/")) {
      const bustedUrl = file.url + (file.url.includes("?") ? "&" : "?") + "ts=" + Date.now();
      img.src = bustedUrl; img.alt = file.filename || "Image Preview"; body.appendChild(img);
    } else if (file.type === "application/pdf") {
      iframe.src = file.url; body.appendChild(iframe);
    } else {
      a.href = file.url; a.textContent = file.filename || "Download File"; body.appendChild(a);
    }
  } else {
    console.error("File missing .url:", file);
  }
  \<close>
\<close>

definition or_else :: "string \<Rightarrow> string \<Rightarrow> string" where
  "or_else s d = (if s = [] then d else s)"

definition render_file :: "string \<Rightarrow> attachment option \<Rightarrow> element list" where
  "render_file ts item =
     (case item of
        None \<Rightarrow> []
      | Some file \<Rightarrow>
          if url file \<noteq> [] then
            (if (case att_type file of None \<Rightarrow> False | Some t \<Rightarrow> prefix ''image/'' t) then
               [Img (url file @ (if CHR ''?'' \<in> set (url file) then ''&'' else ''?'') @ ''ts='' @ ts)
                    (or_else (filename file) ''Image Preview'')]
             else if att_type file = Some ''application/pdf'' then [Iframe (url file)]
             else [Anchor (url file) (or_else (filename file) ''Download File'')])
          else [])"

text \<open>
  \<^verbatim>\<open>
  function updateCarouselNavVisibility() {
    const overlay = document.getElementById("attachment-carousel");
    if (!overlay) return;
    if (currentCarouselFiles.length <= 1) { nextBtn.style.display = "none"; prevBtn.style.display = "none"; }
    else { nextBtn.style.display = "block"; prevBtn.style.display = "block"; }
  }
  \<close>
  \<open>Inl\<close> is the exception thrown.
\<close>

definition updateCarouselNavVisibility :: "carousel \<Rightarrow> exn + carousel" where
  "updateCarouselNavVisibility c =
     (if \<not> has_overlay c then Inr c
      else
        (case currentCarouselFiles c of
           Undeclared \<Rightarrow> Inl ReferenceError
         | NotArray \<Rightarrow> Inl TypeError
         | Array files \<Rightarrow>
             if length files \<le> 1 then Inr (c\<lparr>nav_shown := False\<rparr>)
             else Inr (c\<lparr>nav_shown := True\<rparr>)))"

text \<open>
  \<^verbatim>\<open>
  function displayCarouselItem(index) {
    const body = document.getElementById("carousel-body");
    if (!body || !Array.isArray(currentCarouselFiles) ||
        index < 0 || index >= currentCarouselFiles.length) {
      console.warn("Invalid carousel state:", { body, files: currentCarouselFiles, index });
      return;
    }
    const file = currentCarouselFiles[index];
    body.innerHTML = "";
    ... the type-directed block ...
    updateCarouselNavVisibility();
  }
  \<close>
  With the globals undeclared the call throws, whether the body exists or not: the guard
  reads \<^verbatim>\<open>currentCarouselFiles\<close> when the body exists, and the warning of its branch
  reads it when the body is missing.
\<close>

definition displayCarouselItem :: "string \<Rightarrow> index_value \<Rightarrow> carousel \<Rightarrow> exn + carousel" where
  "displayCarouselItem ts index c =
     (case currentCarouselFiles c of
        Undeclared \<Rightarrow> Inl ReferenceError
      | NotArray \<Rightarrow> Inr c
      | Array files \<Rightarrow>
          if \<not> has_body c \<or> js_lt index 0 \<or> js_ge index (int (length files)) then Inr c
          else
            let file = item_at files index
            in updateCarouselNavVisibility (c\<lparr>carousel_body := render_file ts file\<rparr>))"

text \<open>
  \<^verbatim>\<open>
  window.nextImage = function () {
    if (!Array.isArray(currentCarouselFiles) || currentCarouselFiles.length === 0) return;
    currentCarouselIndex = (currentCarouselIndex + 1) % currentCarouselFiles.length;
    displayCarouselItem(currentCarouselIndex);
  };
  window.prevImage = function () {
    if (!Array.isArray(currentCarouselFiles) || currentCarouselFiles.length === 0) return;
    currentCarouselIndex = (currentCarouselIndex - 1 + currentCarouselFiles.length) % currentCarouselFiles.length;
    displayCarouselItem(currentCarouselIndex);
  };
  \<close>
\<close>

definition nextImage :: "string \<Rightarrow> carousel \<Rightarrow> exn + carousel" where
  "nextImage ts c =
     (case currentCarouselFiles c of
        Undeclared \<Rightarrow> Inl ReferenceError
      | NotArray \<Rightarrow> Inr c
      | Array files \<Rightarrow>
          if length files = 0 then Inr c
          else
            let c' = c\<lparr>currentCarouselIndex :=
                         js_rem (js_plus (currentCarouselIndex c) 1) (int (length files))\<rparr>
            in displayCarouselItem ts (currentCarouselIndex c') c')"

definition prevImage :: "string \<Rightarrow> carousel \<Rightarrow> exn + carousel" where
  "prevImage ts c =
     (case currentCarouselFiles c of
        Undeclared \<Rightarrow> Inl ReferenceError
      | NotArray \<Rightarrow> Inr c
      | Array files \<Rightarrow>
          if length files = 0 then Inr c
          else
            let c' = c\<lparr>currentCarouselIndex :=
                         js_rem (js_plus (js_plus (currentCarouselIndex c) (- 1)) (int (length files)))
                           (int (length files))\<rparr>
            in displayCarouselItem ts (currentCarouselIndex c') c')"

text \<open>
  \<^verbatim>\<open>
  function closeCarousel() {
    if (overlay) overlay.style.display = "none";
    ...
    document.body.style.overflow = "auto";
    ...
    globalSwipeEnabled = true;
    currentCarouselFiles = [];
    currentCarouselIndex = 0;
    currentCarouselField = null;
    currentWarrantyId = null;
  }
  \<close>
\<close>

definition closeCarousel :: "carousel \<Rightarrow> carousel" where
  "closeCarousel c =
     c\<lparr>overlay_shown := (if has_overlay c then False else overlay_shown c),
       page_scroll := True,
       globalSwipeEnabled := True,
       currentCarouselFiles := Array [],
       currentCarouselIndex := Num 0,
       currentCarouselField := None,
       currentWarrantyId := None\<rparr>"

text \<open>
  One call after the other: an exception of the first is the outcome. \<open>repeated\<close> calls a
  navigation function once for each element of a list, which gives \<^verbatim>\<open>Date.now()\<close> at
  the successive calls.
\<close>

definition and_then :: "exn + carousel \<Rightarrow> (carousel \<Rightarrow> exn + carousel) \<Rightarrow> exn + carousel" where
  "and_then r step = (case r of Inl e \<Rightarrow> Inl e | Inr c \<Rightarrow> step c)"

fun repeated :: "(string \<Rightarrow> carousel \<Rightarrow> exn + carousel) \<Rightarrow> string list \<Rightarrow> carousel \<Rightarrow> exn + carousel" where
  "repeated step [] c = Inr c"
| "repeated step (ts # tss) c = and_then (step ts c) (repeated step tss)"

text \<open>A viewer opened on three stored files, showing the first.\<close>

definition photo :: "string \<Rightarrow> attachment" where
  "photo n =
     \<lparr>att_id = Some (''att'' @ n), url = ''https://dl.dropboxusercontent.com/s/'' @ n @ ''.jpg'',
      filename = n @ ''.jpg'', att_type = Some ''image/jpeg''\<rparr>"

definition three_open :: carousel where
  "three_open =
     \<lparr>currentCarouselFiles = Array [photo ''a'', photo ''b'', photo ''c''],
      currentCarouselIndex = Num 0,
      currentCarouselField = Some ''Picture(s) of Issue'', currentWarrantyId = Some ''WR-1002'',
      has_body = True, has_overlay = True,
      carousel_body = [Img ''https://dl.dropboxusercontent.com/s/a.jpg?ts=0'' ''a.jpg''],
      overlay_shown = True, nav_shown = True, page_scroll = False, globalSwipeEnabled = False\<rparr>"

text \<open>
  A page on which the viewer has not been opened or closed yet: the overlay has not been
  created and the globals have not been assigned.
\<close>

definition fresh_viewer :: carousel where
  "fresh_viewer =
     \<lparr>currentCarouselFiles = Undeclared, currentCarouselIndex = NaN,
      currentCarouselField = None, currentWarrantyId = None,
      has_body = False, has_overlay = False, carousel_body = [],
      overlay_shown = False, nav_shown = False, page_scroll = True, globalSwipeEnabled = True\<rparr>"

section \<open>Upload pipeline: the merge written back after a batch\<close>

text \<open>
  The entry pushed for a file whose upload returned a link:
  \<^verbatim>\<open>{ url: dropboxUrl, filename: file.name || "upload.png" }\<close>.
\<close>

definition uploadedFile :: "string \<Rightarrow> string \<Rightarrow> attachment" where
  "uploadedFile dropboxUrl name =
     \<lparr>att_id = None, url = dropboxUrl, filename = or_else name ''upload.png'', att_type = None\<rparr>"

text \<open>
  \<^verbatim>\<open>
  for (const newFile of uploadedUrls) {
    if (!combinedList.some(f => f.url === newFile.url)) {
      combinedList.push(newFile);
    }
  }
  \<close>
  The first argument is \<^verbatim>\<open>combinedList\<close> as the loop has it, the second what is left
  of \<^verbatim>\<open>uploadedUrls\<close>.
\<close>

fun add_unique :: "attachment list \<Rightarrow> attachment list \<Rightarrow> attachment list" where
  "add_unique combined [] = combined"
| "add_unique combined (newFile # rest) =
     add_unique
       (if \<not> list_ex (\<lambda>f. url f = url newFile) combined then combined @ [newFile] else combined)
       rest"

text \<open>
  \<^verbatim>\<open>
  const uploadedUrls = [...existingImages];          // before the uploads
  ... uploadedUrls.push(uploadedFile) ...            // one per successful upload
  const latestFromAirtable = await fetchCurrentImagesFromAirtable(warrantyId, targetField);
  const combinedList = [...latestFromAirtable];
  ... the loop above ...
  \<close>
  \<open>existingImages\<close> is the list read before the uploads, \<open>uploaded\<close> the entries of the
  batch, \<open>latestFromAirtable\<close> the list read again after them.
\<close>

definition combinedList :: "attachment list \<Rightarrow> attachment list \<Rightarrow> attachment list \<Rightarrow> attachment list" where
  "combinedList existingImages uploaded latestFromAirtable =
     add_unique latestFromAirtable (existingImages @ uploaded)"

definition stored_photo :: attachment where
  "stored_photo =
     \<lparr>att_id = Some ''att1'', url = ''https://dl.dropboxusercontent.com/s/a.jpg'',
      filename = ''a.jpg'', att_type = Some ''image/jpeg''\<rparr>"

definition fresh_upload :: attachment where
  "fresh_upload = uploadedFile ''https://dl.dropboxusercontent.com/s/a.jpg'' ''a (1).jpg''"

section \<open>Record synchronizer\<close>

definition falsy :: "string option \<Rightarrow> bool" where
  "falsy s = (s = None \<or> s = Some [])"

text \<open>\<^verbatim>\<open>data.records\<close>: \<open>None\<close> is \<^verbatim>\<open>undefined\<close>.\<close>

definition records_of :: "body \<Rightarrow> airtable_record list option" where
  "records_of b = (case b of RecordsBody rs \<Rightarrow> Some rs | _ \<Rightarrow> None)"

text \<open>
  \<^verbatim>\<open>record.fields && record.fields[imageField]\<close>, for a field that holds attachments:
  \<open>None\<close> when the value is missing.
\<close>

definition attachment_field :: "airtable_record \<Rightarrow> string \<Rightarrow> attachment list option" where
  "attachment_field r k = (case map_of (rec_fields r) k of Some (Attachments xs) \<Rightarrow> Some xs | _ \<Rightarrow> None)"

text \<open>
  \<^verbatim>\<open>record.fields[imageField]\<close> as a condition: a string is truthy when it is not empty,
  an array always.
\<close>

definition truthy :: "field_value \<Rightarrow> bool" where
  "truthy v = (case v of Text s \<Rightarrow> s \<noteq> [] | Attachments xs \<Rightarrow> True | Links ids \<Rightarrow> True)"

text \<open>
  The \<^verbatim>\<open>try\<close> block of \<^verbatim>\<open>fetchCurrentImagesFromAirtable\<close>:
  \<^verbatim>\<open>
  const response = await fetchWithRetry(url, { headers: ... });
  if (!response.ok) { console.error(...); return []; }
  const data = await response.json();
  if (data.records.length === 0) { return []; }
  const record = data.records[0];
  if (record.fields && record.fields[imageField]) { return record.fields[imageField]; }
  else { return []; }
  \<close>
  \<open>Inl\<close> is an exception leaving the block. The value of the field is returned as it is
  stored, whatever its type; \<^verbatim>\<open>[]\<close> is \<open>Attachments []\<close>.
\<close>

definition fetchCurrentImages_try :: "string \<Rightarrow> string \<Rightarrow> world \<Rightarrow> (exn + field_value) \<times> world" where
  "fetchCurrentImages_try warrantyId imageField w =
     (case fetchWithRetry (ListRecords (AIRTABLE_TABLE_NAME w) (Some warrantyId) None) 5 w of
        (Inl e, w1) \<Rightarrow> (Inl e, w1)
      | (Inr response, w1) \<Rightarrow>
          if \<not> ok response then (Inr (Attachments []), w1)
          else
            (case json response of
               Inl e \<Rightarrow> (Inl e, w1)
             | Inr data \<Rightarrow>
                 (case records_of data of
                    None \<Rightarrow> (Inl TypeError, w1)
                  | Some records \<Rightarrow>
                      if length records = 0 then (Inr (Attachments []), w1)
                      else
                        (case map_of (rec_fields (hd records)) imageField of
                           Some v \<Rightarrow> if truthy v then (Inr v, w1) else (Inr (Attachments []), w1)
                         | None \<Rightarrow> (Inr (Attachments []), w1)))))"

text \<open>
  \<^verbatim>\<open>
  async function fetchCurrentImagesFromAirtable(warrantyId, imageField) {
    if (!warrantyId) { console.error(...); return []; }
    const url = `https://api.airtable.com/v0/${window.env.AIRTABLE_BASE_ID}/${window.env.AIRTABLE_TABLE_NAME}?...`;
    try { ... } catch (error) { console.error(...); return []; }
  }
  \<close>
  The URL is built between the check of the identifier and the \<^verbatim>\<open>try\<close> block: with
  \<^verbatim>\<open>window.env\<close> undefined, reading \<^verbatim>\<open>window.env.AIRTABLE_BASE_ID\<close> throws a
  \<^verbatim>\<open>TypeError\<close> that no handler of the function catches, and the promise rejects. The
  identifier and the field name are well-formed strings, which \<^verbatim>\<open>encodeURIComponent\<close>
  and the template accept.
\<close>

definition fetchCurrentImagesFromAirtable ::
  "string option \<Rightarrow> string \<Rightarrow> world \<Rightarrow> (exn + field_value) \<times> world" where
  "fetchCurrentImagesFromAirtable warrantyId imageField w =
     (if falsy warrantyId then (Inr (Attachments []), w)
      else if \<not> has_env w then (Inl TypeError, w)
      else
        (case fetchCurrentImages_try (the warrantyId) imageField w of
           (Inl error, w1) \<Rightarrow> (Inr (Attachments []), w1)
         | (Inr files, w1) \<Rightarrow> (Inr files, w1)))"

text \<open>
  \<^verbatim>\<open>
  async function getRecordIdByWarrantyId(warrantyId) {
    const url = ... filterByFormula ... &maxRecords=1;
    try {
      const response = await fetchWithRetry(url, { headers: ... });
      const data = await response.json();
      if (data.records?.length > 0) { return data.records[0].id; }
      return null;
    } catch (error) { console.error(...); return null; }
  }
  \<close>
\<close>

definition getRecordIdByWarrantyId :: "string \<Rightarrow> world \<Rightarrow> string option \<times> world" where
  "getRecordIdByWarrantyId warrantyId w =
     (case fetchWithRetry (ListRecords (AIRTABLE_TABLE_NAME w) (Some warrantyId) (Some 1)) 5 w of
        (Inl error, w1) \<Rightarrow> (None, w1)
      | (Inr response, w1) \<Rightarrow>
          (case json response of
             Inl error \<Rightarrow> (None, w1)
           | Inr data \<Rightarrow>
               (case records_of data of
                  None \<Rightarrow> (None, w1)
                | Some records \<Rightarrow>
                    if length records > 0 then (Some (rec_id (hd records)), w1) else (None, w1))))"

text \<open>
  The key resolution that opens the \<^verbatim>\<open>try\<close> block of \<^verbatim>\<open>updateAirtableRecord\<close>:
  \<^verbatim>\<open>
  let resolvedRecordId = lotNameOrRecordId;
  if (!resolvedRecordId.startsWith("rec")) {
    resolvedRecordId = await getRecordIdByWarrantyId(lotNameOrRecordId);
    if (!resolvedRecordId) { console.error(...); return; }
  }
  \<close>
  The result is the value of \<^verbatim>\<open>resolvedRecordId\<close> after the lookup; the caller returns
  when it is falsy.
\<close>

definition resolvedRecordId :: "string \<Rightarrow> world \<Rightarrow> string option \<times> world" where
  "resolvedRecordId lotNameOrRecordId w =
     (if \<not> prefix ''rec'' lotNameOrRecordId then getRecordIdByWarrantyId lotNameOrRecordId w
      else (Some lotNameOrRecordId, w))"

definition showToast :: "string \<Rightarrow> string \<Rightarrow> world \<Rightarrow> world" where
  "showToast message kind w = w\<lparr>toasts := toasts w @ [(message, kind)]\<rparr>"

text \<open>\<^verbatim>\<open>errorDetails.error?.message || 'Unknown error'\<close>\<close>

definition error_message :: "body \<Rightarrow> string" where
  "error_message b = (case b of ErrorBody (Some m) \<Rightarrow> or_else m ''Unknown error'' | _ \<Rightarrow> ''Unknown error'')"

text \<open>
  The two steps that build the body of the PATCH: the vendor selected in the page is added
  as \<open>Material Vendor\<close>, and the computed field \<open>Warranty Record ID\<close> is dropped.
\<close>

definition with_vendor :: "string option \<Rightarrow> (string \<times> field_value) list \<Rightarrow> (string \<times> field_value) list" where
  "with_vendor dropdown flds =
     (case dropdown of
        Some selectedVendorId \<Rightarrow>
          if selectedVendorId \<noteq> [] \<and> prefix ''rec'' selectedVendorId
          then set_field ''Material Vendor'' (Links [selectedVendorId]) flds
          else flds
      | None \<Rightarrow> flds)"

definition sanitized :: "(string \<times> field_value) list \<Rightarrow> (string \<times> field_value) list" where
  "sanitized flds = filter (\<lambda>(key, v). key \<noteq> ''Warranty Record ID'') flds"

text \<open>
  \<^verbatim>\<open>
  async function updateAirtableRecord(tableName, lotNameOrRecordId, fields) {
    ...
    if (!navigator.onLine) { showToast("You are offline. ...", "error"); ...; return; }
    try {
      ... the key resolution ...
      const selectedVendorId = vendorDropdown?.value?.trim();
      if (selectedVendorId && selectedVendorId.startsWith("rec")) {
        fields["Material Vendor"] = [selectedVendorId];
      }
      const url = `.../${tableName}/${resolvedRecordId}`;
      const sanitizedFields = Object.fromEntries(
        Object.entries(fields).filter(([key]) => key !== "Warranty Record ID"));
      const response = await fetchWithRetry(url, { method: "PATCH", ..., body: ... });
      if (!response.ok) {
        let errorDetails;
        try { errorDetails = await response.json(); }
        catch (jsonErr) {
          console.error(...);
          const text = await response.text();
          console.error(...);
          showToast("Error updating Airtable: Unable to parse error response", "error");
          return;
        }
        showToast(`Airtable error: ${errorDetails.error?.message || 'Unknown error'}`, "error");
        return;
      }
      showToast("Record updated successfully!", "success");
    } catch (error) { console.error(...); } finally { ... }
  }
  \<close>
  \<^verbatim>\<open>lotNameOrRecordId\<close> is \<open>None\<close> when the caller passes \<^verbatim>\<open>null\<close>: the call of
  \<^verbatim>\<open>startsWith\<close> then throws inside the \<^verbatim>\<open>try\<close> block, and the handler only logs.
  When \<^verbatim>\<open>response.json()\<close> rejects, the body has been read, so
  \<^verbatim>\<open>response.text()\<close> rejects in turn: the toast of that handler is not reached and the
  outer handler only logs. The state of the save button is not modelled.
\<close>

definition updateAirtableRecord ::
  "string \<Rightarrow> string option \<Rightarrow> (string \<times> field_value) list \<Rightarrow> world \<Rightarrow> world" where
  "updateAirtableRecord tableName lotNameOrRecordId flds w =
     (if \<not> online w then
        showToast ''You are offline. Please check your internet connection and try again.'' ''error'' w
      else
        (case lotNameOrRecordId of
           None \<Rightarrow> w
         | Some key \<Rightarrow>
             (case resolvedRecordId key w of
                (rid, w1) \<Rightarrow>
                  if falsy rid then w1
                  else
                    let sanitizedFields = sanitized (with_vendor (vendor_dropdown w1) flds)
                    in (case fetchWithRetry (PatchRecord tableName (the rid) sanitizedFields) 5 w1 of
                          (Inl error, w2) \<Rightarrow> w2
                        | (Inr response, w2) \<Rightarrow>
                            if \<not> ok response then
                              (case json response of
                                 Inl jsonErr \<Rightarrow> w2
                               | Inr errorDetails \<Rightarrow>
                                   showToast (''Airtable error: '' @ error_message errorDetails) ''error'' w2)
                            else showToast ''Record updated successfully!'' ''success'' w2))))"

section \<open>Deletion coordinator\<close>

text \<open>
  \<^verbatim>\<open>loadImagesForLot\<close> returns at once when one of the containers or inputs it looks up
  is missing; otherwise it reads the two attachment fields inside a \<^verbatim>\<open>try\<close> block and
  renders them. What it renders is not modelled: it sends no other request. A rejected
  first read is caught, and the second read is not made.
\<close>

definition loadImagesForLot :: "string option \<Rightarrow> world \<Rightarrow> world" where
  "loadImagesForLot warrantyId w =
     (if \<not> has_image_containers w then w
      else
        (case fetchCurrentImagesFromAirtable warrantyId ''Picture(s) of Issue'' w of
           (Inl error, w1) \<Rightarrow> w1
         | (Inr issueImages, w1) \<Rightarrow>
             (case fetchCurrentImagesFromAirtable warrantyId ''Completed  Pictures'' w1 of
                (completedImages, w2) \<Rightarrow> w2)))"

text \<open>\<^verbatim>\<open>imageIdsToDelete.includes(img.id)\<close>, the ids being strings.\<close>

definition includes_id :: "string list \<Rightarrow> string option \<Rightarrow> bool" where
  "includes_id ids i = (case i of None \<Rightarrow> False | Some s \<Rightarrow> List.member ids s)"

text \<open>
  \<^verbatim>\<open>
  async function deleteImagesByLotName(warrantyId, imageIdsToDelete, imageField) {
    if (!warrantyId) { console.error(...); return; }
    if (!Array.isArray(imageIdsToDelete) || imageIdsToDelete.length === 0) return;
    try {
      let existingImages = await fetchCurrentImagesFromAirtable(warrantyId, imageField);
      if (!existingImages || existingImages.length === 0) return;
      const updatedImages = existingImages.filter(img => !imageIdsToDelete.includes(img.id));
      if (updatedImages.length === existingImages.length) return;
      checkAndHideDeleteButton();
      await updateAirtableRecord(window.env.AIRTABLE_TABLE_NAME, warrantyId, { [imageField]: updatedImages });
      await loadImagesForLot(warrantyId);
    } catch (error) { console.error(...); }
  }
  \<close>
  The result is \<open>Inl\<close> when an exception leaves the function. A rejected read is caught.
  A value that is a string has no \<^verbatim>\<open>filter\<close>: the \<^verbatim>\<open>TypeError\<close> is caught. The
  elements of a list of strings have no \<^verbatim>\<open>id\<close>, so that all of them are kept and the
  function returns on the equal lengths.
\<close>

definition deleteImagesByLotName ::
  "string option \<Rightarrow> string list \<Rightarrow> string \<Rightarrow> world \<Rightarrow> (exn + unit) \<times> world" where
  "deleteImagesByLotName warrantyId imageIdsToDelete imageField w =
     (if falsy warrantyId then (Inr (), w)
      else if length imageIdsToDelete = 0 then (Inr (), w)
      else
        (case fetchCurrentImagesFromAirtable warrantyId imageField w of
           (Inl error, w1) \<Rightarrow> (Inr (), w1)
         | (Inr (Text s), w1) \<Rightarrow> (Inr (), w1)
         | (Inr (Links ids), w1) \<Rightarrow> (Inr (), w1)
         | (Inr (Attachments existingImages), w1) \<Rightarrow>
             if length existingImages = 0 then (Inr (), w1)
             else
               let updatedImages = filter (\<lambda>img. \<not> includes_id imageIdsToDelete (att_id img)) existingImages
               in if length updatedImages = length existingImages then (Inr (), w1)
                  else
                    let w2 = updateAirtableRecord (AIRTABLE_TABLE_NAME w1) warrantyId
                               [(imageField, Attachments updatedImages)] w1;
                        w3 = loadImagesForLot warrantyId w2
                    in (Inr (), w3)))"

section \<open>What the record store holds for a business key\<close>

text \<open>
  The first record of the table whose business key is \<open>key\<close>, and the attachment list it
  holds in a field: what a served list request shows of the store.
\<close>

definition first_match :: "string \<Rightarrow> airtable_record list \<Rightarrow> airtable_record option" where
  "first_match key tbl =
     (case filter (\<lambda>r. business_key r = Some key) tbl of [] \<Rightarrow> None | r # _ \<Rightarrow> Some r)"

definition stored_attachments :: "string \<Rightarrow> string \<Rightarrow> airtable_record list \<Rightarrow> attachment list" where
  "stored_attachments key fieldName tbl =
     (case first_match key tbl of
        None \<Rightarrow> []
      | Some r \<Rightarrow> (case attachment_field r fieldName of None \<Rightarrow> [] | Some files \<Rightarrow> files))"

text \<open>
  What a served read returns for the key and the field: the value the first matching
  record holds there, whatever its type, and \<^verbatim>\<open>[]\<close> when there is no such record, no
  value, or an empty string.
\<close>

definition stored_value :: "string \<Rightarrow> string \<Rightarrow> airtable_record list \<Rightarrow> field_value" where
  "stored_value key fieldName tbl =
     (case first_match key tbl of
        None \<Rightarrow> Attachments []
      | Some r \<Rightarrow>
          (case map_of (rec_fields r) fieldName of
             None \<Rightarrow> Attachments []
           | Some v \<Rightarrow> if truthy v then v else Attachments []))"

text \<open>A store with one record, of business key \<open>WR-1002\<close>, holding two photos.\<close>

definition stored_record :: airtable_record where
  "stored_record =
     \<lparr>rec_id = ''recABC123'',
      rec_fields = [(''Warranty Record ID'', Text ''WR-1002''),
                    (''Picture(s) of Issue'', Attachments [photo ''a'', photo ''b''])]\<rparr>"

definition shop_world :: world where
  "shop_world = quiet_world\<lparr>tables := (\<lambda>tbl. if tbl = ''Warranty'' then [stored_record] else [])\<rparr>"

text \<open>The same page before \<^verbatim>\<open>window.env\<close> is defined.\<close>

definition unconfigured_world :: world where
  "unconfigured_world = shop_world\<lparr>has_env := False\<rparr>"

definition unreachable_world :: world where
  "unreachable_world = shop_world\<lparr>remote := (\<lambda>n. Rejects)\<rparr>"

text \<open>The requests sent between two states of the page.\<close>

definition new_requests :: "world \<Rightarrow> world \<Rightarrow> request list" where
  "new_requests w w' = drop (length (sent w)) (sent w')"


section \<open>Deleting the current item from the open viewer\<close>

text \<open>
  The click handler of \<^verbatim>\<open>#delete-current-attachment\<close>. \<open>confirmed\<close> is the answer to
  \<^verbatim>\<open>confirm(`Delete ${fileToDelete.filename}?`)\<close>, \<open>ts\<close> the text of \<^verbatim>\<open>Date.now()\<close> at
  the re-rendering.
  \<^verbatim>\<open>
  if (!currentWarrantyId) { ...; return; }
  if (!currentCarouselField) { ...; return; }
  if (!currentCarouselFiles || !currentCarouselFiles[currentCarouselIndex]) { ...; return; }
  const fileToDelete = currentCarouselFiles[currentCarouselIndex];
  if (!fileToDelete.id) { ...; return; }
  if (!confirm(`Delete ${fileToDelete.filename}?`)) { return; }
  try {
    const existing = await fetchCurrentImagesFromAirtable(currentWarrantyId, currentCarouselField);
    const updated = existing.filter(file => file.id !== fileToDelete.id);
    await updateAirtableRecord(window.env.AIRTABLE_TABLE_NAME, currentWarrantyId, {
      [currentCarouselField]: updated
    });
    currentCarouselFiles = updated;
    if (currentCarouselFiles.length === 0) {
      closeCarousel();
    } else {
      currentCarouselIndex = Math.min(currentCarouselIndex, currentCarouselFiles.length - 1);
      displayCarouselItem(currentCarouselIndex);
    }
    showToast("File deleted successfully.", "success");
    setTimeout(() => { refreshImageContainers(); }, 1000);
  } catch (error) {
    console.error(...);
    showToast("Failed to delete file. Try again.", "error");
  }
  \<close>
  The refresh that the timer starts a second later is not part of the handler's run.

  The guards come before the \<^verbatim>\<open>try\<close> block: with the globals undeclared the first of
  them throws. Inside the block every exception is caught: a rejected read, the
  \<^verbatim>\<open>filter\<close> that a stored string does not have, an exception of
  \<^verbatim>\<open>displayCarouselItem\<close>. When the field holds a list of strings, none of them has the
  \<^verbatim>\<open>id\<close> of the file, all are kept and written back, and they become the working set;
  the viewer reads only \<^verbatim>\<open>id\<close>, \<^verbatim>\<open>url\<close>, \<^verbatim>\<open>filename\<close> and \<^verbatim>\<open>type\<close> of an
  element, none of which a string has, so that each of them stands in the working set as
  \<open>no_properties\<close>.
\<close>

definition no_properties :: attachment where
  "no_properties = \<lparr>att_id = None, url = [], filename = [], att_type = None\<rparr>"

definition failed_toast :: "carousel \<Rightarrow> world \<Rightarrow> exn + (carousel \<times> world)" where
  "failed_toast c w = Inr (c, showToast ''Failed to delete file. Try again.'' ''error'' w)"

text \<open>
  The \<^verbatim>\<open>try\<close> block from the write on: \<open>updated\<close> is the value written, \<open>working\<close> the
  working set it becomes.
\<close>

definition write_back ::
  "string \<Rightarrow> field_value \<Rightarrow> attachment list \<Rightarrow> carousel \<Rightarrow> world \<Rightarrow> exn + (carousel \<times> world)" where
  "write_back ts updated working c w1 =
     (let w2 = updateAirtableRecord (AIRTABLE_TABLE_NAME w1) (currentWarrantyId c)
                 [(the (currentCarouselField c), updated)] w1;
          c1 = c\<lparr>currentCarouselFiles := Array working\<rparr>
      in if length working = 0 then
           Inr (closeCarousel c1, showToast ''File deleted successfully.'' ''success'' w2)
         else
           let c1' = c1\<lparr>currentCarouselIndex :=
                          js_min (currentCarouselIndex c1) (int (length working) - 1)\<rparr>
           in (case displayCarouselItem ts (currentCarouselIndex c1') c1' of
                 Inl error \<Rightarrow> failed_toast c1' w2
               | Inr c2 \<Rightarrow> Inr (c2, showToast ''File deleted successfully.'' ''success'' w2)))"

definition deleteCurrentAttachment ::
  "bool \<Rightarrow> string \<Rightarrow> carousel \<times> world \<Rightarrow> exn + (carousel \<times> world)" where
  "deleteCurrentAttachment confirmed ts cw =
     (case cw of (c, w) \<Rightarrow>
        (case currentCarouselFiles c of
           Undeclared \<Rightarrow> Inl ReferenceError
         | NotArray \<Rightarrow> Inr (c, w)
         | Array files \<Rightarrow>
             if falsy (currentWarrantyId c) then Inr (c, w)
             else if falsy (currentCarouselField c) then Inr (c, w)
             else
               (case item_at files (currentCarouselIndex c) of
                  None \<Rightarrow> Inr (c, w)
                | Some fileToDelete \<Rightarrow>
                    if falsy (att_id fileToDelete) then Inr (c, w)
                    else if \<not> confirmed then Inr (c, w)
                    else
                      (case fetchCurrentImagesFromAirtable (currentWarrantyId c)
                              (the (currentCarouselField c)) w of
                         (Inl error, w1) \<Rightarrow> failed_toast c w1
                       | (Inr (Text s), w1) \<Rightarrow> failed_toast c w1
                       | (Inr (Links ids), w1) \<Rightarrow>
                           write_back ts (Links ids) (map (\<lambda>i. no_properties) ids) c w1
                       | (Inr (Attachments existing), w1) \<Rightarrow>
                           let updated = filter (\<lambda>file. att_id file \<noteq> att_id fileToDelete) existing
                           in write_back ts (Attachments updated) updated c w1))))"

text \<open>The viewer opened on the two stored photos of \<open>WR-1002\<close>, showing the second.\<close>

definition two_open :: carousel where
  "two_open =
     \<lparr>currentCarouselFiles = Array [photo ''a'', photo ''b''], currentCarouselIndex = Num 1,
      currentCarouselField = Some ''Picture(s) of Issue'', currentWarrantyId = Some ''WR-1002'',
      has_body = True, has_overlay = True,
      carousel_body = [Img ''https://dl.dropboxusercontent.com/s/b.jpg?ts=0'' ''b.jpg''],
      overlay_shown = True, nav_shown = True, page_scroll = False, globalSwipeEnabled = False\<rparr>"

section \<open>A store that serves every request\<close>

text \<open>
  From now on the remote side neither fails nor answers in the store's place: every
  request of the run is served by the record store.
\<close>

definition always_served :: "world \<Rightarrow> bool" where
  "always_served w = (\<forall>n \<ge> length (sent w). remote w n = Serves)"

text \<open>
  The key \<open>updateAirtableRecord\<close> resolves to in front of such a store, as a function of
  the table the lookup reads.
\<close>

definition resolved_key :: "string \<Rightarrow> airtable_record list \<Rightarrow> string option" where
  "resolved_key key tbl =
     (if prefix ''rec'' key then Some key else map_option rec_id (first_match key tbl))"

section \<open>Credential broker and blob store\<close>

text \<open>The properties the code reads of a parsed body; \<open>None\<close> is \<^verbatim>\<open>undefined\<close>.\<close>

definition access_token_of :: "body \<Rightarrow> string option" where
  "access_token_of b = (case b of TokenBody t \<Rightarrow> t | _ \<Rightarrow> None)"

definition path_lower_of :: "body \<Rightarrow> string option" where
  "path_lower_of b = (case b of UploadBody p \<Rightarrow> Some p | _ \<Rightarrow> None)"

definition url_of :: "body \<Rightarrow> string option" where
  "url_of b = (case b of LinkBody u \<Rightarrow> Some u | _ \<Rightarrow> None)"

definition links_of :: "body \<Rightarrow> string list option" where
  "links_of b = (case b of LinksBody us \<Rightarrow> Some us | _ \<Rightarrow> None)"

text \<open>\<^verbatim>\<open>tokenData.records?.[0]?.id\<close>\<close>

definition first_record_id :: "body \<Rightarrow> string option" where
  "first_record_id b = (case records_of b of Some (r # rs) \<Rightarrow> Some (rec_id r) | _ \<Rightarrow> None)"

text \<open>
  \<^verbatim>\<open>tag === "expired_access_token" || errorResponse?.error_summary?.startsWith("expired_access_token")\<close>
\<close>

definition expired :: "body \<Rightarrow> bool" where
  "expired b =
     (case b of
        DropboxErrorBody tag error_summary \<Rightarrow>
          tag = Some ''expired_access_token'' \<or>
          (case error_summary of Some s \<Rightarrow> prefix ''expired_access_token'' s | None \<Rightarrow> False)
      | _ \<Rightarrow> False)"

text \<open>\<^verbatim>\<open>JSON.stringify({ fields: { "Dropbox Token": dropboxAccessToken } })\<close>\<close>

definition token_fields :: "string option \<Rightarrow> (string \<times> field_value) list" where
  "token_fields t = (case t of Some s \<Rightarrow> [(''Dropbox Token'', Text s)] | None \<Rightarrow> [])"

text \<open>
  \<^verbatim>\<open>
  async function refreshDropboxAccessToken(refreshToken, dropboxAppKey, dropboxAppSecret) {
    ...
    try {
      const response = await fetchWithRetry(dropboxAuthUrl, { method: "POST", ..., body: params });
      const data = await response.json();
      if (!response.ok) { console.error(...); return null; }
      dropboxAccessToken = data.access_token;
      const tokenResponse = await fetch(tokenUpdateUrl, { headers: ... });
      const tokenData = await tokenResponse.json();
      const recordId = tokenData.records?.[0]?.id;
      if (!recordId) { return dropboxAccessToken; }
      await fetch(patchUrl, { method: "PATCH", ..., body: JSON.stringify({ fields: { "Dropbox Token": dropboxAccessToken } }) });
      return dropboxAccessToken;
    } catch (error) { console.error(...); return null; }
  }
  \<close>
\<close>

definition refreshDropboxAccessToken ::
  "string option \<Rightarrow> string option \<Rightarrow> string option \<Rightarrow> world \<Rightarrow> string option \<times> world" where
  "refreshDropboxAccessToken refreshToken appKey appSecret w =
     (case fetchWithRetry (DropboxRefresh refreshToken appKey appSecret) 5 w of
        (Inl error, w1) \<Rightarrow> (None, w1)
      | (Inr response, w1) \<Rightarrow>
          (case json response of
             Inl error \<Rightarrow> (None, w1)
           | Inr data \<Rightarrow>
               if \<not> ok response then (None, w1)
               else
                 let w2 = w1\<lparr>dropboxAccessToken := access_token_of data\<rparr>
                 in (case fetch (ListRecords credentials_table_id None (Some 1)) w2 of
                       (Inl error, w3) \<Rightarrow> (None, w3)
                     | (Inr tokenResponse, w3) \<Rightarrow>
                         (case json tokenResponse of
                            Inl error \<Rightarrow> (None, w3)
                          | Inr tokenData \<Rightarrow>
                              let recordId = first_record_id tokenData
                              in if falsy recordId then (dropboxAccessToken w3, w3)
                                 else
                                   (case fetch (PatchRecord credentials_table_id (the recordId)
                                                  (token_fields (dropboxAccessToken w3))) w3 of
                                      (Inl error, w4) \<Rightarrow> (None, w4)
                                    | (Inr patched, w4) \<Rightarrow> (dropboxAccessToken w4, w4))))))"

text \<open>
  \<^verbatim>\<open>
  async function fetchDropboxToken() {
    try {
      const response = await fetchWithRetry(url, { headers: ... });
      if (!response.ok) { throw new Error(...); }
      const data = await response.json();
      const record = data.records[0];
      if (!record) { console.error(...); return null; }
      const fields = record.fields;
      dropboxAppKey = fields["Dropbox App Key"];
      dropboxAppSecret = fields["Dropbox App Secret"];
      const token = fields["Dropbox Token"];
      const refreshToken = fields["Dropbox Refresh Token"];
      dropboxRefreshToken = fields["Dropbox Refresh Token"];
      if (!dropboxAppKey || !dropboxAppSecret) { console.error(...); return null; }
      if (token) { dropboxAccessToken = token; return dropboxAccessToken; }
      if (refreshToken) { return await refreshDropboxAccessToken(refreshToken, dropboxAppKey, dropboxAppSecret); }
      return null;
    } catch (error) { console.error(...); return null; }
  }
  \<close>
\<close>

definition fetchDropboxToken :: "world \<Rightarrow> string option \<times> world" where
  "fetchDropboxToken w =
     (case fetchWithRetry (ListRecords credentials_table_id None (Some 1)) 5 w of
        (Inl error, w1) \<Rightarrow> (None, w1)
      | (Inr response, w1) \<Rightarrow>
          if \<not> ok response then (None, w1)
          else
            (case json response of
               Inl error \<Rightarrow> (None, w1)
             | Inr data \<Rightarrow>
                 (case records_of data of
                    None \<Rightarrow> (None, w1)
                  | Some [] \<Rightarrow> (None, w1)
                  | Some (r # rs) \<Rightarrow>
                      let w2 = w1\<lparr>dropboxAppKey := text_field r ''Dropbox App Key'',
                                   dropboxAppSecret := text_field r ''Dropbox App Secret'',
                                   dropboxRefreshToken := text_field r ''Dropbox Refresh Token''\<rparr>;
                          token = text_field r ''Dropbox Token'';
                          refreshToken = text_field r ''Dropbox Refresh Token''
                      in if falsy (dropboxAppKey w2) \<or> falsy (dropboxAppSecret w2) then (None, w2)
                         else if \<not> falsy token then (token, w2\<lparr>dropboxAccessToken := token\<rparr>)
                         else if \<not> falsy refreshToken
                         then refreshDropboxAccessToken refreshToken (dropboxAppKey w2) (dropboxAppSecret w2) w2
                         else (None, w2))))"

text \<open>
  \<^verbatim>\<open>String.prototype.includes\<close> and \<^verbatim>\<open>String.prototype.replace\<close> with a string pattern
  (the first occurrence only), and
  \<^verbatim>\<open>
  function convertToDirectLink(sharedUrl) {
    if (sharedUrl.includes("dropbox.com")) {
      return sharedUrl.replace("www.dropbox.com", "dl.dropboxusercontent.com").replace("?dl=0", "?raw=1");
    }
    return sharedUrl;
  }
  \<close>
\<close>

fun str_includes :: "string \<Rightarrow> string \<Rightarrow> bool" where
  "str_includes [] pat = (pat = [])"
| "str_includes (c # cs) pat = (prefix pat (c # cs) \<or> str_includes cs pat)"

fun str_replace :: "string \<Rightarrow> string \<Rightarrow> string \<Rightarrow> string" where
  "str_replace [] pat rep = (if pat = [] then rep else [])"
| "str_replace (c # cs) pat rep =
     (if prefix pat (c # cs) then rep @ drop (length pat) (c # cs)
      else c # str_replace cs pat rep)"

definition convertToDirectLink :: "string \<Rightarrow> string" where
  "convertToDirectLink sharedUrl =
     (if str_includes sharedUrl ''dropbox.com''
      then str_replace (str_replace sharedUrl ''www.dropbox.com'' ''dl.dropboxusercontent.com'')
             ''?dl=0'' ''?raw=1''
      else sharedUrl)"

text \<open>
  \<^verbatim>\<open>
  async function getExistingDropboxLink(filePath) {
    try {
      const response = await fetchWithRetry(url, { method: "POST", ... });
      if (!response.ok) { throw new Error(...); }
      const data = await response.json();
      if (data.links && data.links.length > 0) { return convertToDirectLink(data.links[0].url); }
      else { return null; }
    } catch (error) { console.error(...); return null; }
  }
  \<close>
\<close>

definition getExistingDropboxLink :: "string option \<Rightarrow> world \<Rightarrow> string option \<times> world" where
  "getExistingDropboxLink filePath w =
     (case fetchWithRetry (DropboxListLinks (dropboxAccessToken w) filePath) 5 w of
        (Inl error, w1) \<Rightarrow> (None, w1)
      | (Inr response, w1) \<Rightarrow>
          if \<not> ok response then (None, w1)
          else
            (case json response of
               Inl error \<Rightarrow> (None, w1)
             | Inr data \<Rightarrow>
                 (case links_of data of
                    Some (u # us) \<Rightarrow> (Some (convertToDirectLink u), w1)
                  | _ \<Rightarrow> (None, w1))))"

text \<open>
  \<^verbatim>\<open>
  async function getDropboxSharedLink(filePath) {
    try {
      const response = await fetchWithRetry(url, { method: "POST", ... });
      if (response.status === 409) { return await getExistingDropboxLink(filePath); }
      if (!response.ok) { const errorData = await response.json(); throw new Error(...); }
      const data = await response.json();
      return convertToDirectLink(data.url);
    } catch (error) { console.error(...); return null; }
  }
  \<close>
\<close>

definition getDropboxSharedLink :: "string option \<Rightarrow> world \<Rightarrow> string option \<times> world" where
  "getDropboxSharedLink filePath w =
     (case fetchWithRetry (DropboxCreateLink (dropboxAccessToken w) filePath) 5 w of
        (Inl error, w1) \<Rightarrow> (None, w1)
      | (Inr response, w1) \<Rightarrow>
          if status response = 409 then getExistingDropboxLink filePath w1
          else if \<not> ok response then (None, w1)
          else
            (case json response of
               Inl error \<Rightarrow> (None, w1)
             | Inr data \<Rightarrow>
                 (case url_of data of
                    None \<Rightarrow> (None, w1)
                  | Some u \<Rightarrow> (Some (convertToDirectLink u), w1))))"

section \<open>Upload pipeline: one file\<close>

text \<open>The \<^verbatim>\<open>creds\<close> object that \<^verbatim>\<open>uploadToDropbox\<close> passes along.\<close>

record creds =
  appKey :: "string option"
  appSecret :: "string option"
  refreshToken :: "string option"

text \<open>
  \<^verbatim>\<open>
  async function uploadFileToDropbox(file, token, creds = {}, attempt = 1) {
    if (!token) { console.error(...); return null; }
    const path = `/uploads/${encodeURIComponent(file.name)}`;
    try {
      const response = await fetchWithRetry(dropboxUploadUrl, { method: "POST", ..., body: file });
      if (response.status === 429) {
        const delayMs = Math.pow(2, attempt) * 1000;
        if (attempt <= 5) {
          await new Promise(res => setTimeout(res, delayMs));
          return await uploadFileToDropbox(file, token, creds, attempt + 1);
        } else { console.error(...); return null; }
      }
      if (!response.ok) {
        const errorResponse = await response.json();
        const tag = errorResponse?.error?.[".tag"];
        if (tag === "expired_access_token" ||
            errorResponse?.error_summary?.startsWith("expired_access_token")) {
          await refreshDropboxAccessToken(creds.refreshToken, creds.appKey, creds.appSecret);
          const newToken = await fetchDropboxToken();
          if (newToken) {
            return await uploadFileToDropbox(file, newToken, creds); // Recursive retry
          }
        }
        return null;
      }
      const data = await response.json();
      return await getDropboxSharedLink(data.path_lower);
    } catch (error) { console.error(...); return null; }
  }
  \<close>
  The file is given by its name, which determines the upload path. The function calls
  itself with nothing that counts the calls made after an expiry, so it need not return:
  the result is \<open>None\<close> when it does not, and \<open>Some\<close> of the returned link (or null) and
  the page otherwise.
\<close>

partial_function (option) uploadFileToDropbox ::
  "string \<Rightarrow> string option \<Rightarrow> creds \<Rightarrow> nat \<Rightarrow> world \<Rightarrow> (string option \<times> world) option" where
  "uploadFileToDropbox fileName token creds attempt w =
     (if falsy token then Some (None, w)
      else
        (case fetchWithRetry (DropboxUpload (the token) fileName) 5 w of
           (Inl error, w1) \<Rightarrow> Some (None, w1)
         | (Inr response, w1) \<Rightarrow>
             if status response = 429 then
               (if attempt \<le> 5
                then uploadFileToDropbox fileName token creds (attempt + 1)
                       (sleep (2 ^ attempt * 1000) w1)
                else Some (None, w1))
             else if \<not> ok response then
               (case json response of
                  Inl error \<Rightarrow> Some (None, w1)
                | Inr errorResponse \<Rightarrow>
                    if expired errorResponse then
                      (case refreshDropboxAccessToken (refreshToken creds) (appKey creds)
                              (appSecret creds) w1 of
                         (refreshed, w2) \<Rightarrow>
                           (case fetchDropboxToken w2 of
                              (newToken, w3) \<Rightarrow>
                                if \<not> falsy newToken
                                then uploadFileToDropbox fileName newToken creds 1 w3
                                else Some (None, w3)))
                    else Some (None, w1))
             else
               (case json response of
                  Inl error \<Rightarrow> Some (None, w1)
                | Inr data \<Rightarrow> Some (getDropboxSharedLink (path_lower_of data) w1))))"

text \<open>
  A page whose token the blob store reports as expired twice: the first upload and the
  upload retried with the first refreshed token are both answered with
  \<open>expired_access_token\<close>, each refresh yields a new token, and the third upload and the
  request for its shared link succeed. Every other request is served by the record store,
  whose credential table holds one record.
\<close>

definition expired_reply :: response where
  "expired_reply =
     \<lparr>status = 401,
      body = DropboxErrorBody (Some ''expired_access_token'') (Some ''expired_access_token/'')\<rparr>"

definition credential_record :: airtable_record where
  "credential_record =
     \<lparr>rec_id = ''recCRED'',
      rec_fields = [(''Dropbox App Key'', Text ''k''), (''Dropbox App Secret'', Text ''s''),
                    (''Dropbox Token'', Text ''t0''), (''Dropbox Refresh Token'', Text ''r'')]\<rparr>"

definition page_creds :: creds where
  "page_creds = \<lparr>appKey = Some ''k'', appSecret = Some ''s'', refreshToken = Some ''r''\<rparr>"

definition expiring_remote :: "nat \<Rightarrow> outcome" where
  "expiring_remote n =
     (if n = 0 \<or> n = 5 then Replies expired_reply
      else if n = 1 then Replies \<lparr>status = 200, body = TokenBody (Some ''t1'')\<rparr>
      else if n = 6 then Replies \<lparr>status = 200, body = TokenBody (Some ''t2'')\<rparr>
      else if n = 10 then Replies \<lparr>status = 200, body = UploadBody ''/uploads/a.jpg''\<rparr>
      else if n = 11 then Replies \<lparr>status = 200, body = LinkBody ''https://www.dropbox.com/s/x/a.jpg?dl=0''\<rparr>
      else Serves)"

definition expiring_world :: world where
  "expiring_world =
     quiet_world\<lparr>tables := (\<lambda>tbl. if tbl = credentials_table_id then [credential_record] else []),
                 remote := expiring_remote,
                 dropboxAccessToken := Some ''t0''\<rparr>"

text \<open>The uploads and the token refreshes among the requests a page has sent.\<close>

fun is_upload :: "request \<Rightarrow> bool" where
  "is_upload (DropboxUpload token fileName) = True"
| "is_upload _ = False"

fun is_refresh :: "request \<Rightarrow> bool" where
  "is_refresh (DropboxRefresh rt ak as) = True"
| "is_refresh _ = False"

definition uploads_sent :: "world \<Rightarrow> request list" where
  "uploads_sent w = filter is_upload (sent w)"

definition refreshes_sent :: "world \<Rightarrow> nat" where
  "refreshes_sent w = length (filter is_refresh (sent w))"

text \<open>
  A blob store that reports every token as expired: of every five requests the first, an
  upload, is answered with \<open>expired_access_token\<close> and the second, the refresh, with a new
  token; the record store serves the rest.
\<close>

definition stuck_remote :: "nat \<Rightarrow> outcome" where
  "stuck_remote n =
     (if n mod 5 = 0 then Replies expired_reply
      else if n mod 5 = 1 then Replies \<lparr>status = 200, body = TokenBody (Some ''t1'')\<rparr>
      else Serves)"

definition stuck_world :: world where
  "stuck_world = expiring_world\<lparr>remote := stuck_remote\<rparr>"

text \<open>
  The credential record once the refreshed token \<open>t1\<close> has been written back, and the
  states of the page from which every round of upload, refresh and token read leads to
  such a state again.
\<close>

definition refreshed_record :: airtable_record where
  "refreshed_record =
     credential_record\<lparr>rec_fields := set_fields [(''Dropbox Token'', Text ''t1'')] (rec_fields credential_record)\<rparr>"

definition stuck :: "world \<Rightarrow> bool" where
  "stuck w = (remote w = stuck_remote \<and> length (sent w) mod 5 = 0 \<and>
     (tables w credentials_table_id = [credential_record] \<or>
      tables w credentials_table_id = [refreshed_record]))"


section \<open>Properties of the environment\<close>

declare fetchWithRetry_loop.simps [simp del]

lemma serve_frame:
  "serve req w = (r, w') \<Longrightarrow>
   sent w' = sent w \<and> slept w' = slept w \<and> remote w' = remote w \<and> online w' = online w"
  by (cases req) (auto split: if_splits)

lemma fetch_frame:
  "fetch req w = (r, w') \<Longrightarrow>
   sent w' = sent w @ [req] \<and> slept w' = slept w \<and> remote w' = remote w \<and> online w' = online w"
  by (auto simp: fetch_def Let_def split: outcome.splits prod.splits dest: serve_frame)

lemma fetch_rate_limited:
  "rate_limited w (length (sent w)) \<Longrightarrow>
   \<exists>r. fetch req w = (Inr r, w\<lparr>sent := sent w @ [req]\<rparr>) \<and> status r = 429"
  by (auto simp: rate_limited_def fetch_def split: outcome.splits)

lemma loop_skips_rate_limits:
  "\<forall>i<k. rate_limited w (length (sent w) + i) \<Longrightarrow> attempt + k \<le> m \<Longrightarrow>
   fetchWithRetry_loop req m attempt delay w =
   fetchWithRetry_loop req m (attempt + k) (delay * 2 ^ k)
     (w\<lparr>sent := sent w @ replicate k req, slept := slept w + (\<Sum>i<k. delay * 2 ^ i)\<rparr>)"
proof (induction k arbitrary: attempt delay w)
  case 0
  then show ?case by simp
next
  case (Suc k)
  from Suc.prems(1) have "rate_limited w (length (sent w))" by force
  then obtain r where r: "fetch req w = (Inr r, w\<lparr>sent := sent w @ [req]\<rparr>)" "status r = 429"
    using fetch_rate_limited by blast
  let ?w1 = "sleep delay (w\<lparr>sent := sent w @ [req]\<rparr>)"
  have lim: "\<forall>i<k. rate_limited ?w1 (length (sent ?w1) + i)"
    using Suc.prems(1) by (auto simp: sleep_def rate_limited_def)
  have le: "(attempt + 1) + k \<le> m" using Suc.prems(2) by simp
  have step: "fetchWithRetry_loop req m attempt delay w =
        fetchWithRetry_loop req m (attempt + 1) (delay * 2) ?w1"
    using r Suc.prems(2) by (subst fetchWithRetry_loop.simps) simp
  have sum: "(\<Sum>i<Suc k. delay * 2 ^ i) = delay + (\<Sum>i<k. delay * 2 * 2 ^ i)"
    by (simp add: sum.lessThan_Suc_shift mult.assoc del: sum.lessThan_Suc)
  show ?case
    unfolding step Suc.IH [OF lim le]
    by (simp add: sleep_def replicate_app_Cons_same sum mult.assoc add.assoc del: sum.lessThan_Suc)
qed


section \<open>Resilient transport: bounded exponential backoff\<close>

text \<open>
  Claim C2. Let the first \<open>min k m\<close> requests of a call \<open>fetchWithRetry req m\<close> be
  answered with status 429. If \<open>k < m\<close> and the next request gets a response \<open>r\<close> whose
  status is not 429, the call returns \<open>r\<close> at once: \<open>k + 1\<close> requests were sent, none
  after \<open>r\<close>, and the delays slept add up to \<open>500 + 1000 + \<dots> + 500 * 2 ^ (k - 1)\<close>
  (for \<open>k = 0\<close> the first response is returned with no delay). If \<open>m \<le> k\<close>, the call
  throws the max-retries error after exactly \<open>m\<close> requests.
\<close>

theorem fetchWithRetry_backoff:
  assumes "\<forall>i < min k m. rate_limited w (length (sent w) + i)"
  shows "(k < m \<longrightarrow>
            (\<forall>r w'. fetch req (backed_off req k w) = (Inr r, w') \<and> status r \<noteq> 429 \<longrightarrow>
               fetchWithRetry req m w = (Inr r, w') \<and>
               sent w' = sent w @ replicate (Suc k) req \<and>
               slept w' = slept w + (\<Sum>i<k. 500 * 2 ^ i))) \<and>
         (m \<le> k \<longrightarrow>
            fetchWithRetry req m w = (Inl MaxRetriesReached, backed_off req m w) \<and>
            sent (backed_off req m w) = sent w @ replicate m req)"
proof (intro conjI impI allI)
  fix r w'
  assume km: "k < m" and f: "fetch req (backed_off req k w) = (Inr r, w') \<and> status r \<noteq> 429"
  have lim: "\<forall>i<k. rate_limited w (length (sent w) + i)" using assms km by simp
  have "fetchWithRetry req m w = fetchWithRetry_loop req m k (500 * 2 ^ k) (backed_off req k w)"
    unfolding fetchWithRetry_def backed_off_def
    using loop_skips_rate_limits [OF lim, of 0 m req 500] km by simp
  also have "\<dots> = (Inr r, w')"
    using km f by (subst fetchWithRetry_loop.simps) simp
  finally show "fetchWithRetry req m w = (Inr r, w')" .
  show "sent w' = sent w @ replicate (Suc k) req"
    using fetch_frame [of req "backed_off req k w" "Inr r" w'] f
    by (simp add: backed_off_def replicate_append_same)
  show "slept w' = slept w + (\<Sum>i<k. 500 * 2 ^ i)"
    using fetch_frame [of req "backed_off req k w" "Inr r" w'] f
    by (simp add: backed_off_def)
next
  assume mk: "m \<le> k"
  have lim: "\<forall>i<m. rate_limited w (length (sent w) + i)" using assms mk by simp
  have "fetchWithRetry req m w = fetchWithRetry_loop req m m (500 * 2 ^ m) (backed_off req m w)"
    unfolding fetchWithRetry_def backed_off_def
    using loop_skips_rate_limits [OF lim, of 0 m req 500] by simp
  also have "\<dots> = (Inl MaxRetriesReached, backed_off req m w)"
    by (subst fetchWithRetry_loop.simps) simp
  finally show "fetchWithRetry req m w = (Inl MaxRetriesReached, backed_off req m w)" .
  show "sent (backed_off req m w) = sent w @ replicate m req" by (simp add: backed_off_def)
qed

theorem fetchWithRetry_backoff_witness:
  "fetchWithRetry (ListRecords ''Warranty'' (Some ''WR-1002'') None) 5 limited_twice =
     (Inr \<lparr>status = 200, body = RecordsBody []\<rparr>,
      limited_twice\<lparr>sent := replicate 3 (ListRecords ''Warranty'' (Some ''WR-1002'') None), slept := 1500\<rparr>) \<and>
   fetchWithRetry (ListRecords ''Warranty'' (Some ''WR-1002'') None) 2 limited_twice =
     (Inl MaxRetriesReached,
      limited_twice\<lparr>sent := replicate 2 (ListRecords ''Warranty'' (Some ''WR-1002'') None), slept := 1500\<rparr>)"
  using fetchWithRetry_backoff [of 2 5 limited_twice "ListRecords ''Warranty'' (Some ''WR-1002'') None"]
    fetchWithRetry_backoff [of 2 2 limited_twice "ListRecords ''Warranty'' (Some ''WR-1002'') None"]
  by (simp add: rate_limited_def limited_twice_def quiet_world_def too_many_requests_def
      backed_off_def fetch_def limit_def numeral_2_eq_2 numeral_3_eq_3)


section \<open>Carousel navigation\<close>

lemma smod_in_range:
  "0 \<le> (i::int) \<Longrightarrow> 0 < n \<Longrightarrow> i smod n = i mod n"
  by (simp add: signed_modulo_int_def sgn_if)

lemma displayCarouselItem_declared:
  assumes "currentCarouselFiles c = Array fs"
  shows "\<exists>c'. displayCarouselItem ts index c = Inr c' \<and>
              currentCarouselFiles c' = Array fs \<and>
              currentCarouselIndex c' = currentCarouselIndex c \<and>
              has_body c' = has_body c"
  using assms by (simp add: displayCarouselItem_def updateCarouselNavVisibility_def Let_def)

lemma displayCarouselItem_shows:
  assumes "currentCarouselFiles c = Array fs" and "has_body c"
    and "0 \<le> i" and "i < int (length fs)"
  shows "\<exists>c'. displayCarouselItem ts (Num i) c = Inr c' \<and>
              carousel_body c' = render_file ts (Some (fs ! nat i))"
  using assms
  by (simp add: displayCarouselItem_def updateCarouselNavVisibility_def Let_def js_lt_def js_ge_def
      item_at_def)

lemma nextImage_index:
  assumes "currentCarouselFiles c = Array fs" and "fs \<noteq> []"
    and "currentCarouselIndex c = Num i" and "0 \<le> i"
  shows "\<exists>c'. nextImage ts c = Inr c' \<and> currentCarouselFiles c' = Array fs \<and>
              currentCarouselIndex c' = Num ((i + 1) mod int (length fs)) \<and>
              has_body c' = has_body c"
proof -
  let ?c = "c\<lparr>currentCarouselIndex := Num ((i + 1) mod int (length fs))\<rparr>"
  have "nextImage ts c = displayCarouselItem ts (Num ((i + 1) mod int (length fs))) ?c"
    using assms by (simp add: nextImage_def Let_def js_rem_def js_plus_def smod_in_range)
  moreover have "currentCarouselFiles ?c = Array fs" using assms(1) by simp
  ultimately show ?thesis
    using displayCarouselItem_declared [of ?c fs ts "Num ((i + 1) mod int (length fs))"] by auto
qed

lemma prevImage_index:
  assumes "currentCarouselFiles c = Array fs" and "fs \<noteq> []"
    and "currentCarouselIndex c = Num i" and "0 \<le> i"
  shows "\<exists>c'. prevImage ts c = Inr c' \<and> currentCarouselFiles c' = Array fs \<and>
              currentCarouselIndex c' = Num ((i - 1) mod int (length fs)) \<and>
              has_body c' = has_body c"
proof -
  let ?n = "int (length fs)"
  let ?c = "c\<lparr>currentCarouselIndex := Num ((i - 1) mod ?n)\<rparr>"
  have pos: "0 < ?n" using assms(2) by simp
  then have "0 \<le> i + - 1 + ?n" using assms(4) by linarith
  then have "(i + - 1 + ?n) smod ?n = (i + - 1 + ?n) mod ?n"
    using pos by (rule smod_in_range)
  also have "\<dots> = (i - 1) mod ?n" by simp
  finally have "prevImage ts c = displayCarouselItem ts (Num ((i - 1) mod ?n)) ?c"
    using assms by (simp add: prevImage_def Let_def js_rem_def js_plus_def)
  moreover have "currentCarouselFiles ?c = Array fs" using assms(1) by simp
  ultimately show ?thesis
    using displayCarouselItem_declared [of ?c fs ts "Num ((i - 1) mod ?n)"] by auto
qed

lemma repeated_nextImage:
  assumes "fs \<noteq> []"
  shows "currentCarouselFiles c = Array fs \<Longrightarrow> currentCarouselIndex c = Num i \<Longrightarrow>
     0 \<le> i \<Longrightarrow> i < int (length fs) \<Longrightarrow>
     \<exists>c'. repeated nextImage tss c = Inr c' \<and> currentCarouselFiles c' = Array fs \<and>
          currentCarouselIndex c' = Num ((i + int (length tss)) mod int (length fs))"
proof (induction tss arbitrary: c i)
  case Nil
  then show ?case by simp
next
  case (Cons ts tss)
  let ?n = "int (length fs)"
  have pos: "0 < ?n" using assms by simp
  obtain c1 where c1: "nextImage ts c = Inr c1" "currentCarouselFiles c1 = Array fs"
      "currentCarouselIndex c1 = Num ((i + 1) mod ?n)"
    using nextImage_index [OF Cons.prems(1) assms Cons.prems(2,3), of ts] by blast
  have r: "0 \<le> (i + 1) mod ?n" "(i + 1) mod ?n < ?n" using pos by simp_all
  obtain c' where c': "repeated nextImage tss c1 = Inr c'" "currentCarouselFiles c' = Array fs"
      "currentCarouselIndex c' = Num (((i + 1) mod ?n + int (length tss)) mod ?n)"
    using Cons.IH [OF c1(2,3) r] by blast
  have "((i + 1) mod ?n + int (length tss)) mod ?n = (i + int (length (ts # tss))) mod ?n"
    using mod_add_left_eq [of "i + 1" ?n "int (length tss)"] by (simp add: algebra_simps)
  then show ?case using c1(1) c' by (simp add: and_then_def)
qed

text \<open>
  Claim C5. On a working set \<open>fs\<close> of length \<open>n \<ge> 1\<close> with the index \<open>i\<close> in \<open>[0, n)\<close>:
  \<open>n\<close> calls of \<open>nextImage\<close> return, with the index back at \<open>i\<close> and the working set as
  it was; \<open>nextImage\<close> then \<open>prevImage\<close>, and \<open>prevImage\<close> then \<open>nextImage\<close>, return with
  the index at \<open>i\<close>; and on three items at index 0, \<open>prevImage\<close> returns with index 2
  and, the viewer's body being present, the body holds exactly the element built from
  \<open>fs ! 2\<close>: nothing when it has no url, an image of its url with the time stamp appended
  when its type starts with \<open>image/\<close>, a frame of its url when it is a PDF, and a link to
  its url otherwise.
\<close>

theorem carousel_cyclic:
  assumes "currentCarouselFiles c = Array fs" and "n = length fs" and "1 \<le> n"
    and "currentCarouselIndex c = Num i" and "0 \<le> i" and "i < int n"
    and "length tss = n"
  shows "(\<exists>c'. repeated nextImage tss c = Inr c' \<and>
               currentCarouselIndex c' = Num i \<and> currentCarouselFiles c' = Array fs) \<and>
         (\<exists>c'. and_then (nextImage ts c) (prevImage ts') = Inr c' \<and>
               currentCarouselIndex c' = Num i) \<and>
         (\<exists>c'. and_then (prevImage ts c) (nextImage ts') = Inr c' \<and>
               currentCarouselIndex c' = Num i) \<and>
         (n = 3 \<and> i = 0 \<longrightarrow>
            (\<exists>c'. prevImage ts c = Inr c' \<and> currentCarouselIndex c' = Num 2 \<and>
               (has_body c \<longrightarrow>
                  carousel_body c' =
                    (if url (fs ! 2) = [] then []
                     else if (\<exists>t. att_type (fs ! 2) = Some t \<and> prefix ''image/'' t) then
                       [Img (url (fs ! 2) @ (if CHR ''?'' \<in> set (url (fs ! 2)) then ''&'' else ''?'')
                               @ ''ts='' @ ts)
                            (if filename (fs ! 2) = [] then ''Image Preview'' else filename (fs ! 2))]
                     else if att_type (fs ! 2) = Some ''application/pdf'' then [Iframe (url (fs ! 2))]
                     else [Anchor (url (fs ! 2))
                            (if filename (fs ! 2) = [] then ''Download File''
                             else filename (fs ! 2))]))))"
proof (intro conjI impI)
  let ?n = "int (length fs)"
  have ne: "fs \<noteq> []" using assms(2,3) by auto
  have inr: "i < ?n" using assms(2,6) by simp
  have pos: "0 < ?n" using ne by simp
  show "\<exists>c'. repeated nextImage tss c = Inr c' \<and>
             currentCarouselIndex c' = Num i \<and> currentCarouselFiles c' = Array fs"
    using repeated_nextImage [OF ne assms(1,4,5) inr, of tss] assms(2,5,7) inr by auto
  obtain c1 where c1: "nextImage ts c = Inr c1" "currentCarouselFiles c1 = Array fs"
      "currentCarouselIndex c1 = Num ((i + 1) mod ?n)"
    using nextImage_index [OF assms(1) ne assms(4,5), of ts] by blast
  have "0 \<le> (i + 1) mod ?n" using pos by simp
  from prevImage_index [OF c1(2) ne c1(3) this, of ts']
  obtain c2 where c2: "prevImage ts' c1 = Inr c2"
      "currentCarouselIndex c2 = Num (((i + 1) mod ?n - 1) mod ?n)" by blast
  have "((i + 1) mod ?n - 1) mod ?n = i" using assms(5) inr by (simp add: mod_diff_left_eq)
  then show "\<exists>c'. and_then (nextImage ts c) (prevImage ts') = Inr c' \<and>
               currentCarouselIndex c' = Num i"
    using c1(1) c2 by (simp add: and_then_def)
  obtain d1 where d1: "prevImage ts c = Inr d1" "currentCarouselFiles d1 = Array fs"
      "currentCarouselIndex d1 = Num ((i - 1) mod ?n)"
    using prevImage_index [OF assms(1) ne assms(4,5), of ts] by blast
  have "0 \<le> (i - 1) mod ?n" using pos by simp
  from nextImage_index [OF d1(2) ne d1(3) this, of ts']
  obtain d2 where d2: "nextImage ts' d1 = Inr d2"
      "currentCarouselIndex d2 = Num (((i - 1) mod ?n + 1) mod ?n)" by blast
  have "((i - 1) mod ?n + 1) mod ?n = i" using assms(5) inr by (simp add: mod_add_left_eq)
  then show "\<exists>c'. and_then (prevImage ts c) (nextImage ts') = Inr c' \<and>
               currentCarouselIndex c' = Num i"
    using d1(1) d2 by (simp add: and_then_def)
next
  assume a: "n = 3 \<and> i = 0"
  let ?c = "c\<lparr>currentCarouselIndex := Num 2\<rparr>"
  have len: "length fs = 3" using a assms(2) by simp
  have p: "prevImage ts c = displayCarouselItem ts (Num 2) ?c"
    using a assms(1,4) len
    by (simp add: prevImage_def Let_def js_rem_def js_plus_def signed_modulo_int_def)
  have f: "currentCarouselFiles ?c = Array fs" using assms(1) by simp
  obtain c' where c': "displayCarouselItem ts (Num 2) ?c = Inr c'"
      "currentCarouselIndex c' = Num 2"
    using displayCarouselItem_declared [OF f, of ts "Num 2"] by auto
  have body: "carousel_body c' = render_file ts (Some (fs ! 2))" if "has_body c"
    using displayCarouselItem_shows [OF f, of 2 ts] that len c'(1) by simp
  show "\<exists>c'. prevImage ts c = Inr c' \<and> currentCarouselIndex c' = Num 2 \<and>
      (has_body c \<longrightarrow>
         carousel_body c' =
           (if url (fs ! 2) = [] then []
            else if (\<exists>t. att_type (fs ! 2) = Some t \<and> prefix ''image/'' t) then
              [Img (url (fs ! 2) @ (if CHR ''?'' \<in> set (url (fs ! 2)) then ''&'' else ''?'')
                      @ ''ts='' @ ts)
                   (if filename (fs ! 2) = [] then ''Image Preview'' else filename (fs ! 2))]
            else if att_type (fs ! 2) = Some ''application/pdf'' then [Iframe (url (fs ! 2))]
            else [Anchor (url (fs ! 2))
                   (if filename (fs ! 2) = [] then ''Download File''
                    else filename (fs ! 2))]))"
  proof (intro exI conjI impI)
    show "prevImage ts c = Inr c'" using p c'(1) by simp
    show "currentCarouselIndex c' = Num 2" by (rule c'(2))
  next
    assume "has_body c"
    then have "carousel_body c' = render_file ts (Some (fs ! 2))" by (rule body)
    then show "carousel_body c' =
           (if url (fs ! 2) = [] then []
            else if (\<exists>t. att_type (fs ! 2) = Some t \<and> prefix ''image/'' t) then
              [Img (url (fs ! 2) @ (if CHR ''?'' \<in> set (url (fs ! 2)) then ''&'' else ''?'')
                      @ ''ts='' @ ts)
                   (if filename (fs ! 2) = [] then ''Image Preview'' else filename (fs ! 2))]
            else if att_type (fs ! 2) = Some ''application/pdf'' then [Iframe (url (fs ! 2))]
            else [Anchor (url (fs ! 2))
                   (if filename (fs ! 2) = [] then ''Download File''
                    else filename (fs ! 2))])"
      by (auto simp: render_file_def or_else_def split: option.splits)
  qed
qed

theorem carousel_cyclic_witness:
  "(\<exists>c'. repeated nextImage [''1'', ''2'', ''3''] three_open = Inr c' \<and>
         currentCarouselIndex c' = Num 0 \<and>
         currentCarouselFiles c' = Array [photo ''a'', photo ''b'', photo ''c'']) \<and>
   (\<exists>c'. and_then (nextImage ''1'' three_open) (prevImage ''2'') = Inr c' \<and>
         currentCarouselIndex c' = Num 0) \<and>
   (\<exists>c'. and_then (prevImage ''1'' three_open) (nextImage ''2'') = Inr c' \<and>
         currentCarouselIndex c' = Num 0) \<and>
   (\<exists>c'. prevImage ''1'' three_open = Inr c' \<and> currentCarouselIndex c' = Num 2 \<and>
         carousel_body c' = [Img ''https://dl.dropboxusercontent.com/s/c.jpg?ts=1'' ''c.jpg''])"
  using carousel_cyclic [of three_open "[photo ''a'', photo ''b'', photo ''c'']" 3 0
      "[''1'', ''2'', ''3'']" "''1''" "''2''"]
  by (simp add: three_open_def photo_def)

section \<open>The viewer before its first opening\<close>

lemma navigation_noop_on_empty:
  "currentCarouselFiles c = Array [] \<Longrightarrow> nextImage ts c = Inr c \<and> prevImage ts c = Inr c"
  by (simp add: nextImage_def prevImage_def)

lemma navigation_noop_without_array:
  "currentCarouselFiles c = NotArray \<Longrightarrow>
   nextImage ts c = Inr c \<and> prevImage ts c = Inr c \<and> displayCarouselItem ts index c = Inr c"
  by (simp add: nextImage_def prevImage_def displayCarouselItem_def)

lemma displayCarouselItem_out_of_range:
  "currentCarouselFiles c = Array fs \<Longrightarrow> i < 0 \<or> int (length fs) \<le> i \<Longrightarrow>
   displayCarouselItem ts (Num i) c = Inr c"
  by (auto simp: displayCarouselItem_def js_lt_def js_ge_def)

lemma displayCarouselItem_NaN_clears:
  "\<exists>c'. displayCarouselItem ''1'' NaN three_open = Inr c' \<and> carousel_body c' = []"
  by (simp add: displayCarouselItem_def updateCarouselNavVisibility_def three_open_def js_lt_def
      js_ge_def item_at_def render_file_def Let_def)

text \<open>
  Claim C10. On a page on which the viewer has been neither opened nor closed the globals
  of the viewer do not exist: \<open>nextImage\<close>, \<open>prevImage\<close> and \<open>displayCarouselItem\<close>, whose
  guards read \<^verbatim>\<open>currentCarouselFiles\<close>, end in a \<^verbatim>\<open>ReferenceError\<close> in place of returning
  with the state as it was.
\<close>

theorem navigation_throws_before_first_opening:
  "nextImage ''1'' fresh_viewer = Inl ReferenceError \<and>
   prevImage ''1'' fresh_viewer = Inl ReferenceError \<and>
   displayCarouselItem ''1'' (Num 0) fresh_viewer = Inl ReferenceError \<and>
   displayCarouselItem ''1'' (Num (- 1)) fresh_viewer = Inl ReferenceError"
  by (simp add: nextImage_def prevImage_def displayCarouselItem_def fresh_viewer_def)

theorem navigation_throws_before_first_opening_witness:
  "\<not> has_body fresh_viewer \<and> currentCarouselFiles fresh_viewer = Undeclared \<and>
   nextImage ''1'' fresh_viewer \<noteq> Inr fresh_viewer \<and>
   prevImage ''1'' fresh_viewer \<noteq> Inr fresh_viewer \<and>
   displayCarouselItem ''1'' (Num (- 1)) fresh_viewer \<noteq> Inr fresh_viewer"
  using navigation_throws_before_first_opening by (simp add: fresh_viewer_def)

section \<open>The merge of the upload pipeline\<close>

lemma add_unique_extends: "\<exists>ys. add_unique acc xs = acc @ ys"
proof (induction xs arbitrary: acc)
  case Nil
  show ?case by simp
next
  case (Cons x xs)
  show ?case
  proof (cases "list_ex (\<lambda>f. url f = url x) acc")
    case True
    then show ?thesis using Cons.IH [of acc] by simp
  next
    case False
    then show ?thesis using Cons.IH [of "acc @ [x]"] by auto
  qed
qed

lemma add_unique_distinct:
  "distinct (map url acc) \<Longrightarrow> distinct (map url (add_unique acc xs))"
proof (induction xs arbitrary: acc)
  case Nil
  then show ?case by simp
next
  case (Cons x xs)
  show ?case
  proof (cases "list_ex (\<lambda>f. url f = url x) acc")
    case True
    then show ?thesis using Cons.IH [of acc] Cons.prems by simp
  next
    case False
    then have "distinct (map url (acc @ [x]))"
      using Cons.prems by (auto simp: list_ex_iff)
    then show ?thesis using Cons.IH [of "acc @ [x]"] False by simp
  qed
qed

lemma add_unique_new_urls:
  "y \<in> set (add_unique acc xs) \<Longrightarrow> y \<in> set acc \<or> (y \<in> set xs \<and> url y \<notin> url ` set acc)"
proof (induction xs arbitrary: acc)
  case Nil
  then show ?case by simp
next
  case (Cons x xs)
  show ?case
  proof (cases "list_ex (\<lambda>f. url f = url x) acc")
    case True
    then show ?thesis using Cons.IH [of acc] Cons.prems by auto
  next
    case False
    then show ?thesis using Cons.IH [of "acc @ [x]"] Cons.prems by (auto simp: list_ex_iff)
  qed
qed

lemma add_unique_fresh:
  "distinct (map url (acc @ xs)) \<Longrightarrow> add_unique acc (xs @ ys) = add_unique (acc @ xs) ys"
proof (induction xs arbitrary: acc)
  case Nil
  show ?case by simp
next
  case (Cons x xs)
  have "url x \<notin> url ` set acc" using Cons.prems by auto
  then have "\<forall>f\<in>set acc. url f \<noteq> url x" by (metis image_eqI)
  then have "\<not> list_ex (\<lambda>f. url f = url x) acc" by (simp add: list_ex_iff)
  moreover have "distinct (map url ((acc @ [x]) @ xs))" using Cons.prems by simp
  ultimately show ?case using Cons.IH [of "acc @ [x]"] by simp
qed

text \<open>
  Claim C1. Let \<open>L\<close> be the stored list read again after the batch, its entries having
  pairwise distinct \<open>url\<close>s. Whatever the list read before the uploads and whatever the
  batch of uploaded entries, the merged list written back has no two entries with the same
  \<open>url\<close>, starts with \<open>L\<close> itself, so contains every entry of \<open>L\<close>, and every \<open>id\<close> of
  \<open>L\<close> is the \<open>id\<close> of one of its entries. The same holds when \<open>L\<close> was read before the
  uploads and the read after them returned the empty list.
\<close>

theorem merge_no_duplicate_urls:
  assumes "distinct (map url L)"
  shows "distinct (map url (combinedList existingImages uploaded L)) \<and>
         take (length L) (combinedList existingImages uploaded L) = L \<and>
         set L \<subseteq> set (combinedList existingImages uploaded L) \<and>
         att_id ` set L \<subseteq> att_id ` set (combinedList existingImages uploaded L) \<and>
         distinct (map url (combinedList L uploaded [])) \<and>
         take (length L) (combinedList L uploaded []) = L"
proof -
  obtain ys where ys: "combinedList existingImages uploaded L = L @ ys"
    unfolding combinedList_def using add_unique_extends by blast
  have 1: "distinct (map url (combinedList existingImages uploaded L))"
    unfolding combinedList_def using assms by (rule add_unique_distinct)
  have e: "combinedList L uploaded [] = add_unique L uploaded"
    unfolding combinedList_def using add_unique_fresh [of "[]" L uploaded] assms by simp
  obtain zs where zs: "combinedList L uploaded [] = L @ zs"
    unfolding e using add_unique_extends by blast
  have 2: "distinct (map url (combinedList L uploaded []))"
    unfolding e using assms by (rule add_unique_distinct)
  show ?thesis using 1 2 ys zs by auto
qed

theorem merge_no_duplicate_urls_witness:
  "distinct (map url [stored_photo]) \<and>
   combinedList [stored_photo] [fresh_upload, uploadedFile ''https://x/b.jpg'' ''b.jpg''] [stored_photo] =
     [stored_photo, uploadedFile ''https://x/b.jpg'' ''b.jpg''] \<and>
   distinct (map url (combinedList [stored_photo]
     [fresh_upload, uploadedFile ''https://x/b.jpg'' ''b.jpg''] [stored_photo]))"
  using merge_no_duplicate_urls [of "[stored_photo]" "[stored_photo]"
      "[fresh_upload, uploadedFile ''https://x/b.jpg'' ''b.jpg'']"]
  by (simp add: combinedList_def stored_photo_def fresh_upload_def uploadedFile_def or_else_def)

text \<open>
  Claim C4 says that a newly uploaded entry replaces a stored entry with the same \<open>url\<close>.
  The loop pushes a new file only when no entry of \<^verbatim>\<open>combinedList\<close> has its \<open>url\<close>, and
  \<^verbatim>\<open>combinedList\<close> starts as the stored list: here the stored photo stays and the fresh
  upload of the same \<open>url\<close> is left out.
\<close>

theorem new_upload_loses_conflict:
  "fresh_upload \<noteq> stored_photo \<and> url fresh_upload = url stored_photo \<and>
   combinedList [] [fresh_upload] [stored_photo] = [stored_photo] \<and>
   \<not> (fresh_upload \<in> set (combinedList [] [fresh_upload] [stored_photo]))"
  by (simp add: combinedList_def stored_photo_def fresh_upload_def uploadedFile_def or_else_def)

text \<open>
  Claim C4, amended. When an entry \<open>newFile\<close> of the batch and an entry \<open>f\<close> of the list
  read again after the uploads have the same \<open>url\<close> (and \<open>newFile\<close> is not itself a stored
  entry), the merged list written back keeps \<open>f\<close>, in the place the stored list has it, and
  does not contain \<open>newFile\<close>: stored entries win \<open>url\<close> conflicts.
\<close>

theorem stored_entry_wins_conflict:
  assumes "f \<in> set latestFromAirtable" and "url f = url newFile"
    and "newFile \<in> set uploaded" and "newFile \<notin> set latestFromAirtable"
  shows "newFile \<notin> set (combinedList existingImages uploaded latestFromAirtable) \<and>
         f \<in> set (combinedList existingImages uploaded latestFromAirtable) \<and>
         take (length latestFromAirtable) (combinedList existingImages uploaded latestFromAirtable)
           = latestFromAirtable"
proof -
  obtain ys where ys: "combinedList existingImages uploaded latestFromAirtable = latestFromAirtable @ ys"
    unfolding combinedList_def using add_unique_extends by blast
  have "newFile \<notin> set (combinedList existingImages uploaded latestFromAirtable)"
  proof
    assume "newFile \<in> set (combinedList existingImages uploaded latestFromAirtable)"
    then have "newFile \<in> set latestFromAirtable \<or> url newFile \<notin> url ` set latestFromAirtable"
      unfolding combinedList_def using add_unique_new_urls by blast
    moreover have "url newFile \<in> url ` set latestFromAirtable"
      using assms(1,2) by (metis image_eqI)
    ultimately show False using assms(4) by simp
  qed
  then show ?thesis using ys assms(1) by auto
qed

theorem stored_entry_wins_conflict_witness:
  "stored_photo \<in> set [stored_photo] \<and> url stored_photo = url fresh_upload \<and>
   fresh_upload \<in> set [fresh_upload] \<and> fresh_upload \<notin> set [stored_photo] \<and>
   fresh_upload \<notin> set (combinedList [] [fresh_upload] [stored_photo]) \<and>
   stored_photo \<in> set (combinedList [] [fresh_upload] [stored_photo])"
  using stored_entry_wins_conflict [of stored_photo "[stored_photo]" fresh_upload "[fresh_upload]" "[]"]
  by (simp add: stored_photo_def fresh_upload_def uploadedFile_def or_else_def)


section \<open>Reading the attachment list\<close>

lemma fetchWithRetry_first:
  "fetch req w = (r, w') \<Longrightarrow> (\<forall>x. r = Inr x \<longrightarrow> status x \<noteq> 429) \<Longrightarrow> 0 < m \<Longrightarrow>
   fetchWithRetry req m w = (r, w')"
  unfolding fetchWithRetry_def
  by (subst fetchWithRetry_loop.simps) (auto split: sum.splits)

lemma serve_not_429: "serve req w = (r, w') \<Longrightarrow> status r \<noteq> 429"
  by (cases req) (auto split: if_splits)

lemma fetchWithRetry_served:
  assumes "remote w (length (sent w)) = Serves" and "0 < m"
  shows "fetchWithRetry req m w =
     (Inr (fst (serve req (w\<lparr>sent := sent w @ [req]\<rparr>))), snd (serve req (w\<lparr>sent := sent w @ [req]\<rparr>)))"
proof -
  obtain r w' where s: "serve req (w\<lparr>sent := sent w @ [req]\<rparr>) = (r, w')" by force
  then have "fetch req w = (Inr r, w')" using assms(1) by (simp add: fetch_def)
  moreover have "status r \<noteq> 429" using s by (rule serve_not_429)
  ultimately show ?thesis using assms(2) s fetchWithRetry_first [of req w "Inr r" w' m] by simp
qed

lemma read_returns_with_env:
  assumes "has_env w"
  shows
  "(\<exists>v w'. fetchCurrentImagesFromAirtable warrantyId imageField w = (Inr v, w')) \<and>
   (falsy warrantyId \<longrightarrow>
      fetchCurrentImagesFromAirtable warrantyId imageField w = (Inr (Attachments []), w)) \<and>
   (\<forall>key response e w1. warrantyId = Some key \<and> key \<noteq> [] \<longrightarrow>
      (fetchWithRetry (ListRecords (AIRTABLE_TABLE_NAME w) (Some key) None) 5 w = (Inl e, w1) \<longrightarrow>
         fetchCurrentImagesFromAirtable warrantyId imageField w = (Inr (Attachments []), w1)) \<and>
      (fetchWithRetry (ListRecords (AIRTABLE_TABLE_NAME w) (Some key) None) 5 w = (Inr response, w1) \<longrightarrow>
         (\<not> ok response \<longrightarrow>
            fetchCurrentImagesFromAirtable warrantyId imageField w = (Inr (Attachments []), w1)) \<and>
         (ok response \<and> records_of (body response) = None \<longrightarrow>
            fetchCurrentImagesFromAirtable warrantyId imageField w = (Inr (Attachments []), w1)) \<and>
         (ok response \<and> body response = RecordsBody [] \<longrightarrow>
            fetchCurrentImagesFromAirtable warrantyId imageField w = (Inr (Attachments []), w1)) \<and>
         (\<forall>first rest. ok response \<and> body response = RecordsBody (first # rest) \<longrightarrow>
            (map_of (rec_fields first) imageField = None \<longrightarrow>
               fetchCurrentImagesFromAirtable warrantyId imageField w = (Inr (Attachments []), w1)) \<and>
            (\<forall>v. map_of (rec_fields first) imageField = Some v \<longrightarrow>
               fetchCurrentImagesFromAirtable warrantyId imageField w =
                 (Inr (if truthy v then v else Attachments []), w1)))))"
proof (intro conjI allI impI)
  show "\<exists>v w'. fetchCurrentImagesFromAirtable warrantyId imageField w = (Inr v, w')"
    using assms by (auto simp: fetchCurrentImagesFromAirtable_def split: prod.splits sum.splits)
next
  assume "falsy warrantyId"
  then show "fetchCurrentImagesFromAirtable warrantyId imageField w = (Inr (Attachments []), w)"
    by (simp add: fetchCurrentImagesFromAirtable_def)
next
  fix key e w1
  assume "warrantyId = Some key \<and> key \<noteq> []"
    and "fetchWithRetry (ListRecords (AIRTABLE_TABLE_NAME w) (Some key) None) 5 w = (Inl e, w1)"
  then show "fetchCurrentImagesFromAirtable warrantyId imageField w = (Inr (Attachments []), w1)"
    using assms
    by (simp add: fetchCurrentImagesFromAirtable_def fetchCurrentImages_try_def falsy_def)
next
  fix key response w1
  assume k: "warrantyId = Some key \<and> key \<noteq> []"
    and f: "fetchWithRetry (ListRecords (AIRTABLE_TABLE_NAME w) (Some key) None) 5 w = (Inr response, w1)"
  {
    assume "\<not> ok response"
    then show "fetchCurrentImagesFromAirtable warrantyId imageField w = (Inr (Attachments []), w1)"
      using k f assms
      by (simp add: fetchCurrentImagesFromAirtable_def fetchCurrentImages_try_def falsy_def)
  next
    assume "ok response \<and> records_of (body response) = None"
    then show "fetchCurrentImagesFromAirtable warrantyId imageField w = (Inr (Attachments []), w1)"
      using k f assms
      by (auto simp: fetchCurrentImagesFromAirtable_def fetchCurrentImages_try_def falsy_def
          json_def records_of_def split: body.splits)
  next
    assume "ok response \<and> body response = RecordsBody []"
    then show "fetchCurrentImagesFromAirtable warrantyId imageField w = (Inr (Attachments []), w1)"
      using k f assms
      by (simp add: fetchCurrentImagesFromAirtable_def fetchCurrentImages_try_def falsy_def
          json_def records_of_def)
  next
    fix first rest
    assume b: "ok response \<and> body response = RecordsBody (first # rest)"
    {
      assume "map_of (rec_fields first) imageField = None"
      then show "fetchCurrentImagesFromAirtable warrantyId imageField w = (Inr (Attachments []), w1)"
        using k f b assms
        by (simp add: fetchCurrentImagesFromAirtable_def fetchCurrentImages_try_def falsy_def
            json_def records_of_def)
    next
      fix v
      assume "map_of (rec_fields first) imageField = Some v"
      then show "fetchCurrentImagesFromAirtable warrantyId imageField w =
          (Inr (if truthy v then v else Attachments []), w1)"
        using k f b assms
        by (simp add: fetchCurrentImagesFromAirtable_def fetchCurrentImages_try_def falsy_def
            json_def records_of_def)
    }
  }
qed

lemma read_served:
  assumes "remote w (length (sent w)) = Serves" and "key \<noteq> []" and "has_env w"
  shows "fetchCurrentImagesFromAirtable (Some key) imageField w =
           (Inr (stored_value key imageField (tables w (AIRTABLE_TABLE_NAME w))),
            w\<lparr>sent := sent w @ [ListRecords (AIRTABLE_TABLE_NAME w) (Some key) None]\<rparr>)"
  using assms(2,3)
    fetchWithRetry_served [OF assms(1), of 5 "ListRecords (AIRTABLE_TABLE_NAME w) (Some key) None"]
  by (auto simp: fetchCurrentImagesFromAirtable_def fetchCurrentImages_try_def falsy_def
      json_def records_of_def ok_def limit_def stored_value_def first_match_def
      split: list.splits option.splits)

lemma stored_value_attachments:
  "stored_value key fieldName tbl = Attachments xs \<Longrightarrow> stored_attachments key fieldName tbl = xs"
  by (auto simp: stored_value_def stored_attachments_def attachment_field_def truthy_def
      split: option.splits field_value.splits if_splits)

lemma stored_value_other:
  "stored_value key fieldName tbl = Text s \<or> stored_value key fieldName tbl = Links ids \<Longrightarrow>
   stored_attachments key fieldName tbl = []"
  by (auto simp: stored_value_def stored_attachments_def attachment_field_def truthy_def
      split: option.splits field_value.splits if_splits)

lemmas world_eval =
  shop_world_def quiet_world_def stored_record_def unreachable_world_def photo_def


lemma read_examples:
  "fetchCurrentImagesFromAirtable (Some ''WR-1002'') ''Picture(s) of Issue'' shop_world =
     (Inr (Attachments [photo ''a'', photo ''b'']),
      shop_world\<lparr>sent := [ListRecords ''Warranty'' (Some ''WR-1002'') None]\<rparr>) \<and>
   fetchCurrentImagesFromAirtable (Some ''WR-1002'') ''Completed  Pictures'' shop_world =
     (Inr (Attachments []), shop_world\<lparr>sent := [ListRecords ''Warranty'' (Some ''WR-1002'') None]\<rparr>) \<and>
   fetchCurrentImagesFromAirtable (Some ''WR-1002'') ''Warranty Record ID'' shop_world =
     (Inr (Text ''WR-1002''), shop_world\<lparr>sent := [ListRecords ''Warranty'' (Some ''WR-1002'') None]\<rparr>) \<and>
   fetchCurrentImagesFromAirtable None ''Picture(s) of Issue'' shop_world =
     (Inr (Attachments []), shop_world) \<and>
   fetchCurrentImagesFromAirtable (Some ''WR-1002'') ''Picture(s) of Issue'' unreachable_world =
     (Inr (Attachments []),
      unreachable_world\<lparr>sent := [ListRecords ''Warranty'' (Some ''WR-1002'') None]\<rparr>)"
  by (simp add: fetchCurrentImagesFromAirtable_def fetchCurrentImages_try_def fetchWithRetry_def
      fetchWithRetry_loop.simps fetch_def json_def records_of_def limit_def business_key_def
      text_field_def falsy_def ok_def truthy_def world_eval)

text \<open>
  Claim C7. With \<^verbatim>\<open>window.env\<close> undefined, \<open>fetchCurrentImagesFromAirtable\<close> called with
  the identifier \<open>WR-1002\<close> and the field \<open>Picture(s) of Issue\<close> ends in a \<^verbatim>\<open>TypeError\<close>,
  thrown while the URL is built before the \<^verbatim>\<open>try\<close> block, in place of returning the
  empty list; no request is sent.
\<close>

theorem read_throws_without_env:
  "fetchCurrentImagesFromAirtable (Some ''WR-1002'') ''Picture(s) of Issue'' unconfigured_world =
     (Inl TypeError, unconfigured_world) \<and>
   sent unconfigured_world = []"
  by (simp add: fetchCurrentImagesFromAirtable_def falsy_def unconfigured_world_def
      shop_world_def quiet_world_def)

section \<open>Store-key resolution\<close>






lemma getRecordIdByWarrantyId_served:
  assumes "remote w (length (sent w)) = Serves"
  shows "getRecordIdByWarrantyId key w =
     (map_option rec_id (first_match key (tables w (AIRTABLE_TABLE_NAME w))),
      w\<lparr>sent := sent w @ [ListRecords (AIRTABLE_TABLE_NAME w) (Some key) (Some 1)]\<rparr>)"
  using fetchWithRetry_served [OF assms, of 5 "ListRecords (AIRTABLE_TABLE_NAME w) (Some key) (Some 1)"]
  by (auto simp: getRecordIdByWarrantyId_def json_def records_of_def limit_def first_match_def
      split: list.splits)




section \<open>The viewer after a delete\<close>

lemma render_file_element:
  "render_file ts (Some f) =
     (if url f = [] then []
      else if (\<exists>t. att_type f = Some t \<and> prefix ''image/'' t) then
        [Img (url f @ (if CHR ''?'' \<in> set (url f) then ''&'' else ''?'') @ ''ts='' @ ts)
             (if filename f = [] then ''Image Preview'' else filename f)]
      else if att_type f = Some ''application/pdf'' then [Iframe (url f)]
      else [Anchor (url f) (if filename f = [] then ''Download File'' else filename f)])"
  by (auto simp: render_file_def or_else_def split: option.splits)

lemma write_back_attachments:
  assumes "currentCarouselFiles c = Array files" and "currentCarouselIndex c = Num i" and "0 \<le> i"
  shows "\<exists>c' w'. write_back ts (Attachments updated) updated c w1 = Inr (c', w') \<and>
     (updated = [] \<longrightarrow> c' = closeCarousel (c\<lparr>currentCarouselFiles := Array []\<rparr>)) \<and>
     (updated \<noteq> [] \<longrightarrow>
        currentCarouselFiles c' = Array updated \<and>
        currentCarouselIndex c' = Num (min i (int (length updated) - 1)) \<and>
        (has_body c \<longrightarrow>
           carousel_body c' =
             render_file ts (Some (updated ! nat (min i (int (length updated) - 1))))))"
proof (cases "updated = []")
  case True
  then show ?thesis by (simp add: write_back_def Let_def)
next
  case False
  let ?j = "min i (int (length updated) - 1)"
  let ?c1 = "c\<lparr>currentCarouselFiles := Array updated, currentCarouselIndex := Num ?j\<rparr>"
  have range: "0 \<le> ?j" "?j < int (length updated)"
    using assms(3) False by (cases updated; simp)+
  have f: "currentCarouselFiles ?c1 = Array updated" by simp
  obtain c' where c': "displayCarouselItem ts (Num ?j) ?c1 = Inr c'"
      "currentCarouselFiles c' = Array updated" "currentCarouselIndex c' = Num ?j"
    using displayCarouselItem_declared [OF f, of ts "Num ?j"] by auto
  have body: "carousel_body c' = render_file ts (Some (updated ! nat ?j))" if "has_body c"
    using displayCarouselItem_shows [OF f _ range, of ts] that c'(1) by simp
  have "write_back ts (Attachments updated) updated c w1 =
      Inr (c', showToast ''File deleted successfully.'' ''success''
                 (updateAirtableRecord (AIRTABLE_TABLE_NAME w1) (currentWarrantyId c)
                    [(the (currentCarouselField c), Attachments updated)] w1))"
    using False assms(2) c'(1) by (simp add: write_back_def Let_def js_min_def)
  then show ?thesis using False c'(2,3) body by simp
qed

text \<open>
  Claim C9. Let the delete handler of the open viewer pass its guards (record key and field
  set, a file with an \<open>id\<close> at the current index \<open>i\<close> of the working set, the deletion
  confirmed), and let \<open>updated\<close> be the list read again from the store without the entries
  of that \<open>id\<close>. The handler returns, and after it the working set is \<open>updated\<close>. If it is
  empty the viewer is closed: working set empty, index 0, field and record key reset,
  overlay hidden. Otherwise the index is the smaller of \<open>i\<close> and the new length minus 1,
  which is a position of the new working set, and the body of the viewer holds exactly the
  element built from the item at that index: nothing when it has no url, an image of its
  url with the time stamp appended when its type starts with \<open>image/\<close>, a frame of its url
  when it is a PDF, and a link to its url otherwise.
\<close>

theorem carousel_after_delete:
  assumes "currentCarouselFiles c = Array files"
    and "\<not> falsy (currentWarrantyId c)" and "\<not> falsy (currentCarouselField c)"
    and "currentCarouselIndex c = Num i" and "0 \<le> i" and "i < int (length files)"
    and "\<not> falsy (att_id (files ! nat i))"
    and "fetchCurrentImagesFromAirtable (currentWarrantyId c) (the (currentCarouselField c)) w
           = (Inr (Attachments existing), w1)"
    and "updated = filter (\<lambda>file. att_id file \<noteq> att_id (files ! nat i)) existing"
    and "j = min i (int (length updated) - 1)"
  shows "\<exists>c' w'. deleteCurrentAttachment True ts (c, w) = Inr (c', w') \<and>
         (updated = [] \<longrightarrow>
            c' = closeCarousel (c\<lparr>currentCarouselFiles := Array []\<rparr>) \<and>
            currentCarouselFiles c' = Array [] \<and> currentCarouselIndex c' = Num 0 \<and>
            currentCarouselField c' = None \<and> currentWarrantyId c' = None \<and>
            (has_overlay c \<longrightarrow> \<not> overlay_shown c')) \<and>
         (updated \<noteq> [] \<longrightarrow>
            currentCarouselFiles c' = Array updated \<and>
            currentCarouselIndex c' = Num j \<and> 0 \<le> j \<and> j < int (length updated) \<and>
            (has_body c \<longrightarrow>
               carousel_body c' =
                 (if url (updated ! nat j) = [] then []
                  else if (\<exists>t. att_type (updated ! nat j) = Some t \<and> prefix ''image/'' t) then
                    [Img (url (updated ! nat j) @
                            (if CHR ''?'' \<in> set (url (updated ! nat j)) then ''&'' else ''?'') @
                            ''ts='' @ ts)
                         (if filename (updated ! nat j) = [] then ''Image Preview''
                          else filename (updated ! nat j))]
                  else if att_type (updated ! nat j) = Some ''application/pdf'' then
                    [Iframe (url (updated ! nat j))]
                  else [Anchor (url (updated ! nat j))
                         (if filename (updated ! nat j) = [] then ''Download File''
                          else filename (updated ! nat j))])))"
proof -
  have d: "deleteCurrentAttachment True ts (c, w) = write_back ts (Attachments updated) updated c w1"
    using assms(1-9) by (simp add: deleteCurrentAttachment_def item_at_def Let_def)
  obtain c' w' where r: "write_back ts (Attachments updated) updated c w1 = Inr (c', w')"
    and e: "updated = [] \<longrightarrow> c' = closeCarousel (c\<lparr>currentCarouselFiles := Array []\<rparr>)"
    and n: "updated \<noteq> [] \<longrightarrow>
        currentCarouselFiles c' = Array updated \<and> currentCarouselIndex c' = Num j \<and>
        (has_body c \<longrightarrow> carousel_body c' = render_file ts (Some (updated ! nat j)))"
    using write_back_attachments [OF assms(1,4,5), of ts updated w1] assms(10) by blast
  have range: "updated \<noteq> [] \<longrightarrow> 0 \<le> j \<and> j < int (length updated)"
    using assms(5,10) by (cases updated) auto
  show ?thesis
  proof (intro exI conjI impI)
    show "deleteCurrentAttachment True ts (c, w) = Inr (c', w')" using d r by simp
  next
    assume u: "updated = []"
    then show c: "c' = closeCarousel (c\<lparr>currentCarouselFiles := Array []\<rparr>)" using e by simp
    show "currentCarouselFiles c' = Array []" "currentCarouselIndex c' = Num 0"
      "currentCarouselField c' = None" "currentWarrantyId c' = None"
      by (simp_all add: c closeCarousel_def)
  next
    assume "updated = []" "has_overlay c"
    then show "\<not> overlay_shown c'" using e by (simp add: closeCarousel_def)
  next
    assume "updated \<noteq> []"
    then show "currentCarouselFiles c' = Array updated" "currentCarouselIndex c' = Num j"
      "0 \<le> j" "j < int (length updated)"
      using n range by simp_all
  next
    assume "updated \<noteq> []" "has_body c"
    then have "carousel_body c' = render_file ts (Some (updated ! nat j))" using n by simp
    then show "carousel_body c' =
                 (if url (updated ! nat j) = [] then []
                  else if (\<exists>t. att_type (updated ! nat j) = Some t \<and> prefix ''image/'' t) then
                    [Img (url (updated ! nat j) @
                            (if CHR ''?'' \<in> set (url (updated ! nat j)) then ''&'' else ''?'') @
                            ''ts='' @ ts)
                         (if filename (updated ! nat j) = [] then ''Image Preview''
                          else filename (updated ! nat j))]
                  else if att_type (updated ! nat j) = Some ''application/pdf'' then
                    [Iframe (url (updated ! nat j))]
                  else [Anchor (url (updated ! nat j))
                         (if filename (updated ! nat j) = [] then ''Download File''
                          else filename (updated ! nat j))])"
      by (simp only: render_file_element)
  qed
qed

theorem carousel_after_delete_witness:
  "\<exists>c' w'. deleteCurrentAttachment True ''7'' (two_open, shop_world) = Inr (c', w') \<and>
      currentCarouselFiles c' = Array [photo ''a''] \<and>
      currentCarouselIndex c' = Num 0 \<and>
      carousel_body c' = [Img ''https://dl.dropboxusercontent.com/s/a.jpg?ts=7'' ''a.jpg'']"
proof -
  have g: "currentCarouselFiles two_open = Array [photo ''a'', photo ''b'']"
    "\<not> falsy (currentWarrantyId two_open)" "\<not> falsy (currentCarouselField two_open)"
    "currentCarouselIndex two_open = Num 1" "0 \<le> (1::int)"
    "1 < int (length [photo ''a'', photo ''b''])"
    "\<not> falsy (att_id ([photo ''a'', photo ''b''] ! nat 1))"
    by (simp_all add: two_open_def falsy_def photo_def)
  have r: "fetchCurrentImagesFromAirtable (currentWarrantyId two_open)
        (the (currentCarouselField two_open)) shop_world =
      (Inr (Attachments [photo ''a'', photo ''b'']),
       shop_world\<lparr>sent := [ListRecords ''Warranty'' (Some ''WR-1002'') None]\<rparr>)"
    using read_examples by (simp add: two_open_def)
  have u: "[photo ''a''] = filter (\<lambda>file. att_id file \<noteq> att_id ([photo ''a'', photo ''b''] ! nat 1))
        [photo ''a'', photo ''b'']"
    by (simp add: photo_def)
  have j: "(0::int) = min 1 (int (length [photo ''a'']) - 1)" by simp
  have h: "has_body two_open" by (simp add: two_open_def)
  have p: "url (photo ''a'') = ''https://dl.dropboxusercontent.com/s/a.jpg''"
    "filename (photo ''a'') = ''a.jpg''" "att_type (photo ''a'') = Some ''image/jpeg''"
    by (simp_all add: photo_def)
  from carousel_after_delete [OF g r u j, of "''7''"] h p show ?thesis by simp
qed

section \<open>Deletion is idempotent\<close>

lemma served_now: "always_served w \<Longrightarrow> remote w (length (sent w)) = Serves"
  by (simp add: always_served_def)

lemma served_later:
  "always_served w \<Longrightarrow> remote w' = remote w \<Longrightarrow> length (sent w) \<le> length (sent w') \<Longrightarrow>
   always_served w'"
  by (simp add: always_served_def)

lemma load_served:
  assumes "always_served w" and "key \<noteq> []" and "has_env w"
  shows "loadImagesForLot (Some key) w =
     (if has_image_containers w
      then w\<lparr>sent := sent w @ [ListRecords (AIRTABLE_TABLE_NAME w) (Some key) None,
                               ListRecords (AIRTABLE_TABLE_NAME w) (Some key) None]\<rparr>
      else w)"
proof -
  let ?L = "ListRecords (AIRTABLE_TABLE_NAME w) (Some key) None"
  let ?w1 = "w\<lparr>sent := sent w @ [?L]\<rparr>"
  have s0: "remote w (length (sent w)) = Serves" using assms(1) by (rule served_now)
  have "always_served ?w1" using assms(1) by (rule served_later) simp_all
  then have s1: "remote ?w1 (length (sent ?w1)) = Serves" by (rule served_now)
  have e1: "has_env ?w1" using assms(3) by simp
  show ?thesis
    using read_served [OF s0 assms(2,3)] read_served [OF s1 assms(2) e1]
    by (simp add: loadImagesForLot_def)
qed

lemma resolved_served:
  assumes "always_served w"
  shows "resolvedRecordId key w =
     (resolved_key key (tables w (AIRTABLE_TABLE_NAME w)),
      if prefix ''rec'' key then w
      else w\<lparr>sent := sent w @ [ListRecords (AIRTABLE_TABLE_NAME w) (Some key) (Some 1)]\<rparr>)"
  using getRecordIdByWarrantyId_served [OF served_now [OF assms], of key]
  by (simp add: resolvedRecordId_def resolved_key_def)

lemma patch_served:
  assumes "remote w (length (sent w)) = Serves"
  shows "fetchWithRetry (PatchRecord tbl rid ps) 5 w =
     (if rid \<in> rec_id ` set (tables w tbl)
      then (Inr \<lparr>status = 200, body = OtherJson\<rparr>,
            w\<lparr>sent := sent w @ [PatchRecord tbl rid ps],
              tables := (tables w)(tbl := patch_table rid ps (tables w tbl))\<rparr>)
      else (Inr \<lparr>status = 404, body = ErrorBody (Some ''NOT_FOUND'')\<rparr>,
            w\<lparr>sent := sent w @ [PatchRecord tbl rid ps]\<rparr>))"
  using fetchWithRetry_served [OF assms, of 5 "PatchRecord tbl rid ps"] by simp

lemma update_served:
  assumes "always_served w" and "online w"
  shows "updateAirtableRecord tbl (Some key) flds w =
     (let rid = resolved_key key (tables w (AIRTABLE_TABLE_NAME w));
          wr = (if prefix ''rec'' key then w
                else w\<lparr>sent := sent w @ [ListRecords (AIRTABLE_TABLE_NAME w) (Some key) (Some 1)]\<rparr>);
          ps = sanitized (with_vendor (vendor_dropdown w) flds)
      in if falsy rid then wr
         else if the rid \<in> rec_id ` set (tables w tbl)
         then showToast ''Record updated successfully!'' ''success''
                (wr\<lparr>sent := sent wr @ [PatchRecord tbl (the rid) ps],
                    tables := (tables w)(tbl := patch_table (the rid) ps (tables w tbl))\<rparr>)
         else showToast ''Airtable error: NOT_FOUND'' ''error''
                (wr\<lparr>sent := sent wr @ [PatchRecord tbl (the rid) ps]\<rparr>))"
proof -
  let ?wr = "if prefix ''rec'' key then w
             else w\<lparr>sent := sent w @ [ListRecords (AIRTABLE_TABLE_NAME w) (Some key) (Some 1)]\<rparr>"
  have "always_served ?wr" using assms(1) by (rule served_later) simp_all
  then have s: "remote ?wr (length (sent ?wr)) = Serves" by (rule served_now)
  have p: "\<And>rid ps. fetchWithRetry (PatchRecord tbl rid ps) 5 ?wr =
     (if rid \<in> rec_id ` set (tables ?wr tbl)
      then (Inr \<lparr>status = 200, body = OtherJson\<rparr>,
            ?wr\<lparr>sent := sent ?wr @ [PatchRecord tbl rid ps],
              tables := (tables ?wr)(tbl := patch_table rid ps (tables ?wr tbl))\<rparr>)
      else (Inr \<lparr>status = 404, body = ErrorBody (Some ''NOT_FOUND'')\<rparr>,
            ?wr\<lparr>sent := sent ?wr @ [PatchRecord tbl rid ps]\<rparr>))"
    using s by (rule patch_served)
  have t: "tables ?wr = tables w" "vendor_dropdown ?wr = vendor_dropdown w" by simp_all
  show ?thesis
    unfolding updateAirtableRecord_def resolved_served [OF assms(1)]
    using assms(2) p
    by (simp add: Let_def t ok_def json_def error_message_def or_else_def del: fun_upd_apply)
qed

lemma delete_served:
  assumes "always_served w" and "key \<noteq> []" and "ids \<noteq> []" and "has_env w"
  shows "deleteImagesByLotName (Some key) ids imageField w =
     (Inr (),
      let wa = w\<lparr>sent := sent w @ [ListRecords (AIRTABLE_TABLE_NAME w) (Some key) None]\<rparr>;
          existing = stored_attachments key imageField (tables w (AIRTABLE_TABLE_NAME w));
          updated = filter (\<lambda>img. \<not> includes_id ids (att_id img)) existing
      in if length updated = length existing then wa
         else loadImagesForLot (Some key)
                (updateAirtableRecord (AIRTABLE_TABLE_NAME w) (Some key)
                   [(imageField, Attachments updated)] wa))"
proof -
  let ?v = "stored_value key imageField (tables w (AIRTABLE_TABLE_NAME w))"
  have r: "fetchCurrentImagesFromAirtable (Some key) imageField w =
      (Inr ?v, w\<lparr>sent := sent w @ [ListRecords (AIRTABLE_TABLE_NAME w) (Some key) None]\<rparr>)"
    using served_now [OF assms(1)] assms(2,4) by (rule read_served)
  show ?thesis
  proof (cases ?v)
    case (Attachments xs)
    then show ?thesis
      using assms(2,3) r stored_value_attachments [OF Attachments]
      by (simp add: deleteImagesByLotName_def falsy_def Let_def)
  next
    case (Text s)
    then show ?thesis
      using assms(2,3) r stored_value_other [of key imageField _ s]
      by (simp add: deleteImagesByLotName_def falsy_def Let_def)
  next
    case (Links ls)
    then show ?thesis
      using assms(2,3) r stored_value_other [of key imageField _ _ ls]
      by (simp add: deleteImagesByLotName_def falsy_def Let_def)
  qed
qed

lemma delete_nowrite:
  assumes served: "always_served w" and key: "key \<noteq> []" and ids: "ids \<noteq> []"
    and env: "has_env w"
    and nw: "length (filter (\<lambda>img. \<not> includes_id ids (att_id img))
                 (stored_attachments key imageField (tables w (AIRTABLE_TABLE_NAME w)))) =
             length (stored_attachments key imageField (tables w (AIRTABLE_TABLE_NAME w)))
           \<or> \<not> online w
           \<or> falsy (resolved_key key (tables w (AIRTABLE_TABLE_NAME w)))"
    and w': "w' = snd (deleteImagesByLotName (Some key) ids imageField w)"
  shows "tables w' = tables w \<and> online w' = online w \<and>
         AIRTABLE_TABLE_NAME w' = AIRTABLE_TABLE_NAME w \<and> always_served w' \<and> has_env w' \<and>
         (\<forall>t rid ps. PatchRecord t rid ps \<notin> set (new_requests w w'))"
proof -
  let ?T = "AIRTABLE_TABLE_NAME w"
  let ?wa = "w\<lparr>sent := sent w @ [ListRecords ?T (Some key) None]\<rparr>"
  let ?E = "stored_attachments key imageField (tables w ?T)"
  let ?U = "filter (\<lambda>img. \<not> includes_id ids (att_id img)) ?E"
  let ?wu = "updateAirtableRecord ?T (Some key) [(imageField, Attachments ?U)] ?wa"
  have sa: "always_served ?wa" using served by (rule served_later) simp_all
  show ?thesis
  proof (cases "length ?U = length ?E")
    case True
    then have "w' = ?wa" using w' delete_served [OF served key ids env, of imageField] by simp
    then show ?thesis using sa env by (simp add: new_requests_def)
  next
    case False
    then have w1: "w' = loadImagesForLot (Some key) ?wu"
      using w' delete_served [OF served key ids env, of imageField] by (simp add: Let_def)
    have u: "tables ?wu = tables w \<and> online ?wu = online w \<and> AIRTABLE_TABLE_NAME ?wu = ?T \<and>
        remote ?wu = remote w \<and> has_env ?wu \<and>
        (\<exists>qs. sent ?wu = sent w @ qs \<and> (\<forall>t rid ps. PatchRecord t rid ps \<notin> set qs))"
    proof (cases "online w")
      case off: False
      then show ?thesis using env by (simp add: updateAirtableRecord_def showToast_def)
    next
      case on: True
      then have f: "falsy (resolved_key key (tables w ?T))" using nw False by simp
      have "online ?wa" using on by simp
      from update_served [OF sa this, of ?T key "[(imageField, Attachments ?U)]"] f env
      show ?thesis by (simp add: Let_def)
    qed
    then obtain qs where qs: "sent ?wu = sent w @ qs" "\<forall>t rid ps. PatchRecord t rid ps \<notin> set qs"
      by blast
    have su: "always_served ?wu" using served by (rule served_later) (simp_all add: u qs)
    have eu: "has_env ?wu" using u by simp
    have "w' = (if has_image_containers ?wu
        then ?wu\<lparr>sent := sent ?wu @ [ListRecords (AIRTABLE_TABLE_NAME ?wu) (Some key) None,
                                     ListRecords (AIRTABLE_TABLE_NAME ?wu) (Some key) None]\<rparr>
        else ?wu)"
      unfolding w1 using su key eu by (rule load_served)
    then have l: "tables w' = tables ?wu \<and> online w' = online ?wu \<and>
        AIRTABLE_TABLE_NAME w' = AIRTABLE_TABLE_NAME ?wu \<and> remote w' = remote ?wu \<and>
        has_env w' = has_env ?wu \<and>
        (\<exists>ls. sent w' = sent ?wu @ ls \<and> (\<forall>t rid ps. PatchRecord t rid ps \<notin> set ls))"
      by (cases "has_image_containers ?wu") simp_all
    then obtain ls where ls: "sent w' = sent ?wu @ ls" "\<forall>t rid ps. PatchRecord t rid ps \<notin> set ls"
      by blast
    have "always_served w'" using served by (rule served_later) (simp_all add: l u ls qs)
    moreover have "new_requests w w' = qs @ ls" by (simp add: new_requests_def ls qs)
    ultimately show ?thesis using l u qs(2) ls(2) by simp
  qed
qed

lemma map_of_set_field:
  "map_of (set_field k v kvs) k' = (if k' = k then Some v else map_of kvs k')"
  by (induction kvs) auto

lemma map_of_set_fields_other:
  "k \<notin> fst ` set ps \<Longrightarrow> map_of (set_fields ps kvs) k = map_of kvs k"
  by (induction ps arbitrary: kvs) (auto simp: map_of_set_field)

lemma sanitized_keys: "''Warranty Record ID'' \<notin> fst ` set (sanitized flds)"
  by (auto simp: sanitized_def)

lemma business_key_patched:
  "business_key (r\<lparr>rec_fields := set_fields (sanitized flds) (rec_fields r)\<rparr>) = business_key r"
  by (simp add: business_key_def text_field_def map_of_set_fields_other [OF sanitized_keys])

lemma patch_table_map:
  "distinct (map rec_id tbl) \<Longrightarrow>
   patch_table rid ps tbl =
     map (\<lambda>x. if rec_id x = rid then x\<lparr>rec_fields := set_fields ps (rec_fields x)\<rparr> else x) tbl"
proof (induction tbl)
  case Nil
  show ?case by simp
next
  case (Cons r rs)
  show ?case
  proof (cases "rec_id r = rid")
    case True
    then have "rid \<notin> rec_id ` set rs" using Cons.prems by simp
    then have "\<forall>x\<in>set rs. rec_id x \<noteq> rid" by (metis image_eqI)
    then have "map (\<lambda>x. if rec_id x = rid then x\<lparr>rec_fields := set_fields ps (rec_fields x)\<rparr> else x) rs = rs"
      by (induction rs) auto
    then show ?thesis using True by simp
  next
    case False
    then show ?thesis using Cons by simp
  qed
qed

lemma first_match_map:
  assumes "\<And>x. business_key (g x) = business_key x"
  shows "first_match key (map g tbl) = map_option g (first_match key tbl)"
proof -
  have "filter (\<lambda>r. business_key r = Some key) (map g tbl) =
        map g (filter (\<lambda>r. business_key r = Some key) tbl)"
    by (simp add: filter_map o_def assms)
  then show ?thesis by (simp add: first_match_def split: list.splits)
qed

lemma first_match_member:
  "first_match key tbl = Some r \<Longrightarrow> r \<in> set tbl \<and> business_key r = Some key"
proof -
  assume "first_match key tbl = Some r"
  then obtain rs where "filter (\<lambda>r. business_key r = Some key) tbl = r # rs"
    by (auto simp: first_match_def split: list.splits)
  then have "r \<in> set (filter (\<lambda>r. business_key r = Some key) tbl)" by simp
  then show ?thesis by simp
qed

lemma stored_after_patch:
  assumes d: "distinct (map rec_id tbl)" and fm: "first_match key tbl = Some r"
    and wr: "attachment_field r k \<noteq> None"
  shows "stored_attachments key k
           (patch_table (rec_id r) (sanitized (with_vendor vd [(k, Attachments U)])) tbl)
         \<in> {U, []}"
proof -
  let ?ps = "sanitized (with_vendor vd [(k, Attachments U)])"
  let ?g = "\<lambda>x. if rec_id x = rec_id r then x\<lparr>rec_fields := set_fields ?ps (rec_fields x)\<rparr> else x"
  have bk: "\<And>x. business_key (?g x) = business_key x" by (simp add: business_key_patched)
  have "first_match key (patch_table (rec_id r) ?ps tbl) = Some (?g r)"
    unfolding patch_table_map [OF d] first_match_map [of ?g, OF bk] fm by simp
  moreover have kn: "k \<noteq> ''Warranty Record ID''"
  proof
    assume "k = ''Warranty Record ID''"
    moreover have "business_key r = Some key" using fm first_match_member by blast
    ultimately show False using wr
      by (auto simp: business_key_def text_field_def attachment_field_def
          split: option.splits field_value.splits)
  qed
  moreover have "attachment_field (?g r) k \<in> {Some U, None}"
    using kn
    by (auto simp: attachment_field_def sanitized_def with_vendor_def map_of_set_field
        split: option.splits field_value.splits)
  ultimately show ?thesis by (auto simp: stored_attachments_def)
qed

lemma delete_never_raises: "fst (deleteImagesByLotName warrantyId ids imageField w) = Inr ()"
  by (simp add: deleteImagesByLotName_def Let_def split: prod.splits sum.splits field_value.splits)

lemma first_write_settles:
  assumes served: "always_served w" and key: "key \<noteq> []" and ids: "ids \<noteq> []"
    and env: "has_env w"
    and d: "distinct (map rec_id (tables w (AIRTABLE_TABLE_NAME w)))"
    and cons: "\<forall>r. prefix ''rec'' key \<and> first_match key (tables w (AIRTABLE_TABLE_NAME w)) = Some r
                 \<longrightarrow> rec_id r = key"
    and due: "length (filter (\<lambda>img. \<not> includes_id ids (att_id img))
                 (stored_attachments key imageField (tables w (AIRTABLE_TABLE_NAME w)))) \<noteq>
              length (stored_attachments key imageField (tables w (AIRTABLE_TABLE_NAME w)))"
      "online w" "\<not> falsy (resolved_key key (tables w (AIRTABLE_TABLE_NAME w)))"
    and w1: "w1 = snd (deleteImagesByLotName (Some key) ids imageField w)"
  shows "always_served w1 \<and> has_env w1 \<and>
         length (filter (\<lambda>img. \<not> includes_id ids (att_id img))
                 (stored_attachments key imageField (tables w1 (AIRTABLE_TABLE_NAME w1)))) =
         length (stored_attachments key imageField (tables w1 (AIRTABLE_TABLE_NAME w1)))"
proof -
  let ?T = "AIRTABLE_TABLE_NAME w"
  let ?tbl = "tables w ?T"
  let ?wa = "w\<lparr>sent := sent w @ [ListRecords ?T (Some key) None]\<rparr>"
  let ?E = "stored_attachments key imageField ?tbl"
  let ?P = "\<lambda>img. \<not> includes_id ids (att_id img)"
  let ?U = "filter ?P ?E"
  let ?F = "[(imageField, Attachments ?U)]"
  let ?wu = "updateAirtableRecord ?T (Some key) ?F ?wa"
  let ?ps = "sanitized (with_vendor (vendor_dropdown w) ?F)"
  have ne: "?E \<noteq> []" using due(1) by auto
  then obtain r where fm: "first_match key ?tbl = Some r" and af: "attachment_field r imageField \<noteq> None"
    by (auto simp: stored_attachments_def split: option.splits)
  have rid: "resolved_key key ?tbl = Some (rec_id r)"
    using fm cons by (auto simp: resolved_key_def)
  have mem: "rec_id r \<in> rec_id ` set ?tbl" using first_match_member [OF fm] by blast
  have sa: "always_served ?wa" using served by (rule served_later) simp_all
  have w1': "w1 = loadImagesForLot (Some key) ?wu"
    using w1 due(1) delete_served [OF served key ids env, of imageField] by (simp add: Let_def)
  have "online ?wa" using due(2) by simp
  from update_served [OF sa this, of ?T key ?F] rid mem due(3)
  have u: "tables ?wu = (tables w)(?T := patch_table (rec_id r) ?ps ?tbl) \<and>
        AIRTABLE_TABLE_NAME ?wu = ?T \<and> remote ?wu = remote w \<and> has_env ?wu \<and>
        length (sent w) \<le> length (sent ?wu)"
    using env by (simp add: Let_def showToast_def falsy_def)
  have su: "always_served ?wu" using served by (rule served_later) (simp_all add: u)
  have eu: "has_env ?wu" using u by simp
  have "w1 = (if has_image_containers ?wu
        then ?wu\<lparr>sent := sent ?wu @ [ListRecords (AIRTABLE_TABLE_NAME ?wu) (Some key) None,
                                     ListRecords (AIRTABLE_TABLE_NAME ?wu) (Some key) None]\<rparr>
        else ?wu)"
    unfolding w1' using su key eu by (rule load_served)
  then have l: "tables w1 = tables ?wu \<and> AIRTABLE_TABLE_NAME w1 = AIRTABLE_TABLE_NAME ?wu \<and>
        remote w1 = remote ?wu \<and> has_env w1 = has_env ?wu \<and>
        length (sent ?wu) \<le> length (sent w1)"
    by (cases "has_image_containers ?wu") simp_all
  have s1: "always_served w1" using served by (rule served_later) (use l u in simp_all)
  have t1: "tables w1 (AIRTABLE_TABLE_NAME w1) = patch_table (rec_id r) ?ps ?tbl"
    using l u by simp
  have "stored_attachments key imageField (patch_table (rec_id r) ?ps ?tbl) \<in> {?U, []}"
    using d fm af by (rule stored_after_patch)
  then have "filter ?P (stored_attachments key imageField (tables w1 (AIRTABLE_TABLE_NAME w1))) =
      stored_attachments key imageField (tables w1 (AIRTABLE_TABLE_NAME w1))"
    unfolding t1 by auto
  then show ?thesis using s1 l eu by simp
qed

lemma delete_without_env:
  "\<not> has_env w \<Longrightarrow> deleteImagesByLotName warrantyId ids imageField w = (Inr (), w)"
  by (simp add: deleteImagesByLotName_def fetchCurrentImagesFromAirtable_def)

text \<open>
  Claim C3. Let the record store serve every request of the two calls, let the store keys
  of the table be distinct, and let a business key that starts with \<open>rec\<close> be the store
  key of its record (the key that \<open>updateAirtableRecord\<close> then patches). Running
  \<open>deleteImagesByLotName\<close> twice in sequence with the same record, ids and field: neither
  call raises an error, the second call sends no PATCH, and the tables after the second
  call are the tables after the first. For the second call under any behaviour of the
  remote side: when the list it reads again and the filtered list have the same length,
  it returns right after the read, without patching.
\<close>

theorem delete_idempotent:
  assumes served: "always_served w"
    and d: "distinct (map rec_id (tables w (AIRTABLE_TABLE_NAME w)))"
    and cons: "\<forall>key r. warrantyId = Some key \<and> prefix ''rec'' key \<and>
                 first_match key (tables w (AIRTABLE_TABLE_NAME w)) = Some r \<longrightarrow> rec_id r = key"
    and w1: "w1 = snd (deleteImagesByLotName warrantyId ids imageField w)"
    and w2: "w2 = snd (deleteImagesByLotName warrantyId ids imageField w1)"
  shows "fst (deleteImagesByLotName warrantyId ids imageField w) = Inr () \<and>
         fst (deleteImagesByLotName warrantyId ids imageField w1) = Inr () \<and>
         tables w2 = tables w1 \<and>
         (\<forall>t rid ps. PatchRecord t rid ps \<notin> set (new_requests w1 w2)) \<and>
         (\<forall>existing wr.
            ids \<noteq> [] \<and>
            fetchCurrentImagesFromAirtable warrantyId imageField w1 = (Inr (Attachments existing), wr) \<and>
            length (filter (\<lambda>img. \<not> includes_id ids (att_id img)) existing) = length existing \<longrightarrow>
            w2 = wr)"
proof -
  have par: "\<forall>existing wr.
            ids \<noteq> [] \<and>
            fetchCurrentImagesFromAirtable warrantyId imageField w1 = (Inr (Attachments existing), wr) \<and>
            length (filter (\<lambda>img. \<not> includes_id ids (att_id img)) existing) = length existing \<longrightarrow>
            w2 = wr"
    using w2
    by (auto simp: deleteImagesByLotName_def Let_def fetchCurrentImagesFromAirtable_def
        split: if_splits)
  have core: "tables w2 = tables w1 \<and> (\<forall>t rid ps. PatchRecord t rid ps \<notin> set (new_requests w1 w2))"
  proof (cases "falsy warrantyId \<or> ids = [] \<or> \<not> has_env w")
    case True
    then have "deleteImagesByLotName warrantyId ids imageField w = (Inr (), w)"
      by (auto simp: deleteImagesByLotName_def fetchCurrentImagesFromAirtable_def)
    then have "w1 = w" using w1 by simp
    then have "w2 = w1" using w2 w1 by simp
    then show ?thesis by (simp add: new_requests_def)
  next
    case False
    then have env: "has_env w" by simp
    from False obtain key where k: "warrantyId = Some key" "key \<noteq> []" and ids: "ids \<noteq> []"
      by (auto simp: falsy_def)
    let ?P = "\<lambda>img. \<not> includes_id ids (att_id img)"
    let ?E = "\<lambda>w. stored_attachments key imageField (tables w (AIRTABLE_TABLE_NAME w))"
    let ?nw = "\<lambda>w. length (filter ?P (?E w)) = length (?E w) \<or> \<not> online w \<or>
                 falsy (resolved_key key (tables w (AIRTABLE_TABLE_NAME w)))"
    have second: "always_served w1 \<and> has_env w1 \<and> ?nw w1"
    proof (cases "?nw w")
      case True
      from delete_nowrite [OF served k(2) ids env True, of w1] w1 k(1)
      have "tables w1 = tables w \<and> online w1 = online w \<and>
          AIRTABLE_TABLE_NAME w1 = AIRTABLE_TABLE_NAME w \<and> always_served w1 \<and> has_env w1" by simp
      then show ?thesis using True by simp
    next
      case False
      then have due: "length (filter ?P (?E w)) \<noteq> length (?E w)" "online w"
        "\<not> falsy (resolved_key key (tables w (AIRTABLE_TABLE_NAME w)))" by simp_all
      have c: "\<forall>r. prefix ''rec'' key \<and> first_match key (tables w (AIRTABLE_TABLE_NAME w)) = Some r
                 \<longrightarrow> rec_id r = key"
        using cons k(1) by simp
      from first_write_settles [OF served k(2) ids env d c due, of w1] w1 k(1)
      show ?thesis by simp
    qed
    then have s1: "always_served w1" and e1: "has_env w1" and nw1: "?nw w1" by simp_all
    from delete_nowrite [OF s1 k(2) ids e1 nw1, of w2] w2 k(1)
    show ?thesis by simp
  qed
  show ?thesis using core par by (simp add: delete_never_raises)
qed

theorem delete_idempotent_witness:
  "always_served shop_world \<and>
   stored_attachments ''WR-1002'' ''Picture(s) of Issue''
     (tables (snd (deleteImagesByLotName (Some ''WR-1002'') [''atta''] ''Picture(s) of Issue'' shop_world))
        ''Warranty'') = [photo ''b''] \<and>
   tables (snd (deleteImagesByLotName (Some ''WR-1002'') [''atta''] ''Picture(s) of Issue''
     (snd (deleteImagesByLotName (Some ''WR-1002'') [''atta''] ''Picture(s) of Issue'' shop_world)))) =
   tables (snd (deleteImagesByLotName (Some ''WR-1002'') [''atta''] ''Picture(s) of Issue'' shop_world)) \<and>
   fst (deleteImagesByLotName (Some ''WR-1002'') [''atta''] ''Picture(s) of Issue''
     (snd (deleteImagesByLotName (Some ''WR-1002'') [''atta''] ''Picture(s) of Issue'' shop_world))) = Inr ()"
proof -
  have s: "always_served shop_world" by (simp add: always_served_def world_eval)
  have d: "distinct (map rec_id (tables shop_world (AIRTABLE_TABLE_NAME shop_world)))"
    by (simp add: world_eval)
  have c: "\<forall>key r. Some ''WR-1002'' = Some key \<and> prefix ''rec'' key \<and>
      first_match key (tables shop_world (AIRTABLE_TABLE_NAME shop_world)) = Some r \<longrightarrow> rec_id r = key"
    by (simp add: prefix_def)
  have e: "stored_attachments ''WR-1002'' ''Picture(s) of Issue''
     (tables (snd (deleteImagesByLotName (Some ''WR-1002'') [''atta''] ''Picture(s) of Issue'' shop_world))
        ''Warranty'') = [photo ''b'']"
    by (simp add: deleteImagesByLotName_def fetchCurrentImagesFromAirtable_def
        fetchCurrentImages_try_def loadImagesForLot_def updateAirtableRecord_def
        resolvedRecordId_def getRecordIdByWarrantyId_def fetchWithRetry_def
        fetchWithRetry_loop.simps fetch_def json_def records_of_def limit_def business_key_def
        text_field_def attachment_field_def falsy_def ok_def truthy_def showToast_def Let_def
        sanitized_def
        with_vendor_def includes_id_def stored_attachments_def first_match_def prefix_def
        world_eval)
  from delete_idempotent [OF s d c refl refl, of "[''atta'']" "''Picture(s) of Issue''"] s e
  show ?thesis by simp
qed


section \<open>Token expiry during an upload\<close>

lemmas dropbox_eval =
  fetchWithRetry_def fetchWithRetry_loop.simps fetch_def json_def ok_def records_of_def
  limit_def text_field_def falsy_def sleep_def
  refreshDropboxAccessToken_def fetchDropboxToken_def getDropboxSharedLink_def
  getExistingDropboxLink_def convertToDirectLink_def access_token_of_def path_lower_of_def
  url_of_def links_of_def first_record_id_def expired_def token_fields_def
  expiring_world_def expiring_remote_def expired_reply_def credential_record_def
  page_creds_def credentials_table_id_def quiet_world_def Let_def

text \<open>
  Claim C6 says that an upload answered with token expiry is retried exactly once after the
  refresh, and that a retry that fails again is surfaced with no further retry. In this
  run the first upload and the one retried with the refreshed token \<open>t1\<close> are both answered
  with \<open>expired_access_token\<close>: the token is refreshed a second time, the upload is sent a
  third time with \<open>t2\<close>, and the call returns the link.
\<close>

theorem expiry_retried_twice:
  "map_option fst (uploadFileToDropbox ''a.jpg'' (Some ''t0'') page_creds 1 expiring_world) =
     Some (Some ''https://dl.dropboxusercontent.com/s/x/a.jpg?raw=1'') \<and>
   map_option (uploads_sent \<circ> snd)
     (uploadFileToDropbox ''a.jpg'' (Some ''t0'') page_creds 1 expiring_world) =
     Some [DropboxUpload ''t0'' ''a.jpg'', DropboxUpload ''t1'' ''a.jpg'', DropboxUpload ''t2'' ''a.jpg''] \<and>
   map_option (refreshes_sent \<circ> snd)
     (uploadFileToDropbox ''a.jpg'' (Some ''t0'') page_creds 1 expiring_world) = Some 2"
  apply (subst uploadFileToDropbox.simps, simp add: dropbox_eval)
  apply (subst uploadFileToDropbox.simps, simp add: dropbox_eval)
  apply (subst uploadFileToDropbox.simps, simp add: dropbox_eval)
  apply (subst uploadFileToDropbox.simps, simp add: dropbox_eval)
  apply (subst uploadFileToDropbox.simps, simp add: dropbox_eval)
  apply (subst uploadFileToDropbox.simps, simp add: dropbox_eval)
  apply (subst uploadFileToDropbox.simps, simp add: dropbox_eval)
  apply (subst uploadFileToDropbox.simps, simp add: dropbox_eval)
  apply (subst uploadFileToDropbox.simps, simp add: dropbox_eval uploads_sent_def refreshes_sent_def)
  done

lemma fetchWithRetry_loop_never_429:
  "fetchWithRetry_loop req m a d w = (Inr r, w') \<Longrightarrow> status r \<noteq> 429"
proof (induction req m a d w rule: fetchWithRetry_loop.induct)
  case (1 req maxRetries attempt delay w)
  show ?case
  proof (cases "attempt < maxRetries")
    case False
    then show ?thesis using "1.prems" by (subst (asm) fetchWithRetry_loop.simps) simp
  next
    case True
    obtain x w1 where f: "fetch req w = (x, w1)" by force
    show ?thesis
    proof (cases x)
      case (Inl e)
      then show ?thesis using "1.prems" True f by (subst (asm) fetchWithRetry_loop.simps) simp
    next
      case (Inr response)
      show ?thesis
      proof (cases "status response = 429")
        case False
        then show ?thesis
          using "1.prems" True f Inr by (subst (asm) fetchWithRetry_loop.simps) auto
      next
        case lim: True
        have rec: "fetchWithRetry_loop req maxRetries (attempt + 1) (delay * 2) (sleep delay w1) = (Inr r, w')"
          using "1.prems" True f Inr lim by (subst (asm) fetchWithRetry_loop.simps) simp
        from "1.IH" [OF True f [symmetric] Inr _ rec] lim show ?thesis by simp
      qed
    qed
  qed
qed

lemma fetchWithRetry_never_429:
  "fetchWithRetry req m w = (Inr r, w') \<Longrightarrow> status r \<noteq> 429"
  unfolding fetchWithRetry_def by (rule fetchWithRetry_loop_never_429)

text \<open>
  Claim C6, amended. When an upload is answered with an error response (not OK), the
  token is refreshed only if the response indicates token expiry. In that case the token
  is read again after the refresh and, when one is obtained, the upload is run again from
  the start with it, as a first attempt: a further expiry answer is handled the same way,
  and nothing limits these retries to one. When no token is obtained, and when the error
  is not an expiry, the call returns null.
\<close>

theorem expiry_retry_restarts:
  assumes "\<not> falsy token"
    and "fetchWithRetry (DropboxUpload (the token) fileName) 5 w = (Inr response, w1)"
    and "\<not> ok response" and "json response = Inr errorResponse"
    and "w2 = snd (refreshDropboxAccessToken (refreshToken creds) (appKey creds) (appSecret creds) w1)"
    and "newToken = fst (fetchDropboxToken w2)" and "w3 = snd (fetchDropboxToken w2)"
  shows "(expired errorResponse \<and> \<not> falsy newToken \<longrightarrow>
            uploadFileToDropbox fileName token creds attempt w =
            uploadFileToDropbox fileName newToken creds 1 w3) \<and>
         (expired errorResponse \<and> falsy newToken \<longrightarrow>
            uploadFileToDropbox fileName token creds attempt w = Some (None, w3)) \<and>
         (\<not> expired errorResponse \<longrightarrow>
            uploadFileToDropbox fileName token creds attempt w = Some (None, w1))"
proof -
  have n: "status response \<noteq> 429" using assms(2) by (rule fetchWithRetry_never_429)
  show ?thesis
    using assms n
    by (subst (1 2 3) uploadFileToDropbox.simps) (simp add: split_beta)
qed

theorem expiry_retry_restarts_witness:
  "uploadFileToDropbox ''a.jpg'' (Some ''t0'') page_creds 1 expiring_world =
   uploadFileToDropbox ''a.jpg'' (Some ''t1'') page_creds 1
     (snd (fetchDropboxToken (snd (refreshDropboxAccessToken (Some ''r'') (Some ''k'') (Some ''s'')
        (expiring_world\<lparr>sent := [DropboxUpload ''t0'' ''a.jpg'']\<rparr>)))))"
proof -
  let ?w1 = "expiring_world\<lparr>sent := [DropboxUpload ''t0'' ''a.jpg'']\<rparr>"
  have t: "\<not> falsy (Some ''t0'')" by (simp add: falsy_def)
  have up: "fetchWithRetry (DropboxUpload (the (Some ''t0'')) ''a.jpg'') 5 expiring_world =
      (Inr expired_reply, ?w1)"
    by (simp add: fetchWithRetry_def fetchWithRetry_loop.simps fetch_def expiring_world_def
        expiring_remote_def expired_reply_def quiet_world_def)
  have nok: "\<not> ok expired_reply" by (simp add: ok_def expired_reply_def)
  have js: "json expired_reply = Inr (body expired_reply)" by (simp add: json_def expired_reply_def)
  have ex: "expired (body expired_reply)" by (simp add: expired_def expired_reply_def)
  have c: "refreshToken page_creds = Some ''r''" "appKey page_creds = Some ''k''"
    "appSecret page_creds = Some ''s''" by (simp_all add: page_creds_def)
  have nt: "fst (fetchDropboxToken (snd (refreshDropboxAccessToken (Some ''r'') (Some ''k'') (Some ''s'') ?w1)))
      = Some ''t1''"
    by (simp add: dropbox_eval)
  from expiry_retry_restarts [OF t up nok js refl refl refl, of page_creds 1] ex
  show ?thesis by (simp add: c nt falsy_def)
qed

lemma stuck_at:
  "n mod 5 = 0 \<Longrightarrow> stuck_remote n = Replies expired_reply"
  "n mod 5 = 1 \<Longrightarrow> stuck_remote n = Replies \<lparr>status = 200, body = TokenBody (Some ''t1'')\<rparr>"
  "n mod 5 = 2 \<Longrightarrow> stuck_remote n = Serves"
  "n mod 5 = 3 \<Longrightarrow> stuck_remote n = Serves"
  "n mod 5 = 4 \<Longrightarrow> stuck_remote n = Serves"
  by (simp_all add: stuck_remote_def)

lemma stuck_upload:
  assumes "remote w = stuck_remote" and "length (sent w) mod 5 = 0"
  shows "fetchWithRetry (DropboxUpload token fileName) 5 w =
     (Inr expired_reply, w\<lparr>sent := sent w @ [DropboxUpload token fileName]\<rparr>)"
  using assms
  by (simp add: fetchWithRetry_def fetchWithRetry_loop.simps fetch_def stuck_at expired_reply_def)

lemma patch_credential:
  "c = credential_record \<or> c = refreshed_record \<Longrightarrow>
   rec_id c = ''recCRED'' \<and>
   patch_table ''recCRED'' (token_fields (Some ''t1'')) [c] = [refreshed_record]"
  by (auto simp: refreshed_record_def credential_record_def token_fields_def)

lemma stuck_refresh:
  assumes "remote w = stuck_remote" and "length (sent w) mod 5 = 1"
    and "tables w credentials_table_id = [c]" and "c = credential_record \<or> c = refreshed_record"
  shows "refreshDropboxAccessToken rt ak sk w =
     (Some ''t1'',
      w\<lparr>sent := sent w @ [DropboxRefresh rt ak sk, ListRecords credentials_table_id None (Some 1),
                             PatchRecord credentials_table_id ''recCRED'' (token_fields (Some ''t1''))],
        dropboxAccessToken := Some ''t1'',
        tables := (tables w)(credentials_table_id := [refreshed_record])\<rparr>)"
proof -
  have m: "Suc (length (sent w)) mod 5 = 2" "Suc (Suc (length (sent w))) mod 5 = 3"
    using assms(2) by presburger+
  show ?thesis
    using assms(1,2,3) m
    by (simp add: refreshDropboxAccessToken_def fetchWithRetry_def fetchWithRetry_loop.simps
        fetch_def stuck_at json_def ok_def access_token_of_def first_record_id_def records_of_def
        limit_def falsy_def Let_def patch_credential [OF assms(4)]
        del: fun_upd_apply patch_table.simps)
qed

lemma stuck_fetch_token:
  assumes "remote w = stuck_remote" and "length (sent w) mod 5 = 4"
    and "tables w credentials_table_id = [refreshed_record]"
  shows "fetchDropboxToken w =
     (Some ''t1'',
      w\<lparr>sent := sent w @ [ListRecords credentials_table_id None (Some 1)],
        dropboxAppKey := Some ''k'', dropboxAppSecret := Some ''s'',
        dropboxRefreshToken := Some ''r'', dropboxAccessToken := Some ''t1''\<rparr>)"
  using assms
  by (simp add: fetchDropboxToken_def fetchWithRetry_def fetchWithRetry_loop.simps
      fetch_def stuck_at json_def ok_def records_of_def limit_def falsy_def Let_def
      text_field_def refreshed_record_def credential_record_def)

text \<open>
  The retries need not end. In front of a blob store that answers every upload with
  \<open>expired_access_token\<close> while every refresh yields a token, each call of
  \<open>uploadFileToDropbox\<close> leads to the next one, and the upload never returns.
\<close>

lemma stuck_never_returns:
  assumes "uploadFileToDropbox fileName token creds attempt w = Some y"
  shows "(stuck w \<and> creds = page_creds \<and> \<not> falsy token) = False"
proof (rule uploadFileToDropbox.raw_induct
    [where P = "\<lambda>fileName token creds attempt w y.
                  (stuck w \<and> creds = page_creds \<and> \<not> falsy token) = False",
     OF _ assms], goal_cases)
  case (1 f fileName token creds attempt w y)
  note IH = 1(1) and body = 1(2)
  show ?case
  proof (rule ccontr)
    assume "(stuck w \<and> creds = page_creds \<and> \<not> falsy token) \<noteq> False"
    then have a: "stuck w \<and> creds = page_creds \<and> \<not> falsy token" by simp
    then have r: "remote w = stuck_remote" and m: "length (sent w) mod 5 = 0"
      and c: "creds = page_creds" and nf: "\<not> falsy token"
      by (simp_all add: stuck_def)
    from a obtain rec0 where t: "tables w credentials_table_id = [rec0]"
      and rc: "rec0 = credential_record \<or> rec0 = refreshed_record"
      by (auto simp: stuck_def)
    let ?U = "DropboxUpload (the token) fileName"
    let ?w1 = "w\<lparr>sent := sent w @ [?U]\<rparr>"
    let ?w2 = "?w1\<lparr>sent := sent ?w1 @
          [DropboxRefresh (refreshToken creds) (appKey creds) (appSecret creds),
           ListRecords credentials_table_id None (Some 1),
           PatchRecord credentials_table_id ''recCRED'' (token_fields (Some ''t1''))],
        dropboxAccessToken := Some ''t1'',
        tables := (tables ?w1)(credentials_table_id := [refreshed_record])\<rparr>"
    let ?w3 = "?w2\<lparr>sent := sent ?w2 @ [ListRecords credentials_table_id None (Some 1)],
        dropboxAppKey := Some ''k'', dropboxAppSecret := Some ''s'',
        dropboxRefreshToken := Some ''r'', dropboxAccessToken := Some ''t1''\<rparr>"
    have up: "fetchWithRetry ?U 5 w = (Inr expired_reply, ?w1)"
      using r m by (rule stuck_upload)
    have m1: "length (sent ?w1) mod 5 = 1" using m by (simp add: mod_Suc)
    have rf: "refreshDropboxAccessToken (refreshToken creds) (appKey creds) (appSecret creds) ?w1
        = (Some ''t1'', ?w2)"
      by (rule stuck_refresh [OF _ m1 _ rc]) (simp_all add: r t)
    have m2: "length (sent ?w2) mod 5 = 4" using m by (simp add: mod_Suc)
    have ft: "fetchDropboxToken ?w2 = (Some ''t1'', ?w3)"
      by (rule stuck_fetch_token [OF _ m2]) (simp_all add: r)
    have s3: "stuck ?w3" using r m by (simp add: stuck_def mod_Suc)
    have facts: "falsy token = False" "falsy (Some ''t1'') = False"
      "(status expired_reply = 429) = False" "ok expired_reply = False"
      "json expired_reply = Inr (body expired_reply)" "expired (body expired_reply) = True"
      using nf by (simp_all add: expired_reply_def ok_def json_def expired_def falsy_def)
    have "f fileName (Some ''t1'') creds 1 ?w3 = Some y"
      using body
      by (simp only: facts up rf ft prod.case sum.case if_True if_False not_False_eq_True
          not_True_eq_False)
    then have "(stuck ?w3 \<and> creds = page_creds \<and> \<not> falsy (Some ''t1'')) = False"
      by (rule IH)
    then show False using s3 c facts(2) by simp
  qed
qed

lemma upload_need_not_return:
  "uploadFileToDropbox ''a.jpg'' (Some ''t0'') page_creds 1 stuck_world = None"
proof (cases "uploadFileToDropbox ''a.jpg'' (Some ''t0'') page_creds 1 stuck_world")
  case None
  then show ?thesis .
next
  case (Some y)
  from stuck_never_returns [OF this]
  show ?thesis
    by (simp add: stuck_def stuck_world_def expiring_world_def quiet_world_def falsy_def)
qed

end
